theory Spec2Isabelle
  imports Complex_Main "HOL-Library.Word"
begin

unbundle bit_operations_syntax

section \<open>Strings and the exceptions of the platform\<close>

text \<open>
  JavaScript strings are modelled as \<^typ>\<open>string\<close>, one \<^typ>\<open>char\<close> per code unit
  (code units below 256). Audio samples, clock readings and durations are real numbers.
  An exception of the platform is a value of \<open>js_error\<close>.
\<close>

datatype js_error = RangeError | NotSupportedError | InvalidCharacterError

text \<open>The white space of \<open>String.prototype.trim\<close> and of the regular expression class
  \<open>\s\<close> among the code units below 256 (tab, line feed, vertical tab, form feed, carriage
  return, space, no-break space), and the line terminators that \<open>.\<close> does not match.\<close>

definition whitespace :: "char \<Rightarrow> bool" where
  "whitespace c = (of_char c \<in> {9, 10, 11, 12, 13, 32, 160 :: nat})"

definition line_terminator :: "char \<Rightarrow> bool" where
  "line_terminator c = (of_char c \<in> {10, 13 :: nat})"

definition trim :: "string \<Rightarrow> string" where
  "trim s = rev (dropWhile whitespace (rev (dropWhile whitespace s)))"

text \<open>\<open>s.match(/^\[LANG:(.*?)\]/)\<close>: the capture group when the string starts with the tag.
  The lazy group stops at the first closing bracket and cannot cross a line terminator.\<close>

definition lang_match :: "string \<Rightarrow> string option" where
  "lang_match s =
     (if take 6 s = ''[LANG:'' then
        (let r = drop 6 s; name = takeWhile (\<lambda>c. c \<noteq> CHR '']'') r
         in if length name < length r \<and> list_all (\<lambda>c. \<not> line_terminator c) name
            then Some name else None)
      else None)"

text \<open>\<open>s.replace(/^\[LANG:.*?\]\s*/, '')\<close>\<close>

definition strip_lang :: "string \<Rightarrow> string" where
  "strip_lang s =
     (case lang_match s of
        None \<Rightarrow> s
      | Some name \<Rightarrow> dropWhile whitespace (drop (6 + length name + 1) s))"

text \<open>\<open>acc += text\<close> where the field \<open>text\<close> of a transcription may be missing
  (\<open>undefined\<close> is appended as the string \<open>undefined\<close>).\<close>

definition js_append :: "string \<Rightarrow> string option \<Rightarrow> string" where
  "js_append acc t = acc @ (case t of None \<Rightarrow> ''undefined'' | Some x \<Rightarrow> x)"

section \<open>The PCM codec and the transport encoding\<close>

type_synonym byte = "8 word"
type_synonym int16 = "16 word"

subsection \<open>\<open>btoa\<close> and the binary string (LiveAgent.tsx, onaudioprocess)\<close>

definition b64chars :: string where
  "b64chars = ''ABCDEFGHIJKLMNOPQRSTUVWXYZabcdefghijklmnopqrstuvwxyz0123456789+/''"

definition b64char :: "nat \<Rightarrow> char" where
  "b64char n = b64chars ! (n mod 64)"

text \<open>The platform's \<open>btoa\<close>: three characters of the binary string give four characters
  of the alphabet, a shorter last group is padded with \<open>=\<close>.\<close>

fun btoa :: "string \<Rightarrow> string" where
  "btoa [] = []"
| "btoa [a] =
     (let x = of_char a :: nat
      in [b64char (x div 4), b64char ((x mod 4) * 16), CHR ''='', CHR ''=''])"
| "btoa [a, b] =
     (let x = of_char a :: nat; y = of_char b :: nat
      in [b64char (x div 4), b64char ((x mod 4) * 16 + y div 16),
          b64char ((y mod 16) * 4), CHR ''=''])"
| "btoa (a # b # c # rest) =
     (let x = of_char a :: nat; y = of_char b :: nat; z = of_char c :: nat
      in [b64char (x div 4), b64char ((x mod 4) * 16 + y div 16),
          b64char ((y mod 16) * 4 + z div 64), b64char (z mod 64)] @ btoa rest)"

text \<open>\<open>String.fromCharCode(uint8[i])\<close> and \<open>s.charCodeAt(i)\<close> on bytes.\<close>

definition fromCharCode :: "byte \<Rightarrow> char" where
  "fromCharCode b = char_of (unat b)"

definition charCodeAt :: "char \<Rightarrow> byte" where
  "charCodeAt c = of_char c"

text \<open>The loop \<open>for (i = 0; i < len; i++) binary += String.fromCharCode(uint8[i])\<close>
  followed by \<open>btoa(binary)\<close>.\<close>

definition frameToWire :: "byte list \<Rightarrow> string" where
  "frameToWire uint8 = btoa (foldl (\<lambda>binary b. binary @ [fromCharCode b]) [] uint8)"

subsection \<open>\<open>base64ToArrayBuffer\<close>\<close>

definition b64index :: "char \<Rightarrow> nat option" where
  "b64index c = map_of (zip b64chars [0..<64]) c"

text \<open>The platform's \<open>atob\<close> on padded input whose length is a multiple of four; any other
  string raises \<open>InvalidCharacterError\<close> (the tolerance of \<open>atob\<close> for white space and for
  missing padding is not modelled).\<close>

fun atob :: "string \<Rightarrow> js_error + string" where
  "atob [] = Inr []"
| "atob (c1 # c2 # c3 # c4 # rest) =
     (if rest = [] \<and> c3 = CHR ''='' \<and> c4 = CHR ''='' then
        (case (b64index c1, b64index c2) of
           (Some s1, Some s2) \<Rightarrow> Inr [char_of (s1 * 4 + s2 div 16)]
         | _ \<Rightarrow> Inl InvalidCharacterError)
      else if rest = [] \<and> c4 = CHR ''='' then
        (case (b64index c1, b64index c2, b64index c3) of
           (Some s1, Some s2, Some s3) \<Rightarrow>
             Inr [char_of (s1 * 4 + s2 div 16), char_of ((s2 mod 16) * 16 + s3 div 4)]
         | _ \<Rightarrow> Inl InvalidCharacterError)
      else
        (case (b64index c1, b64index c2, b64index c3, b64index c4) of
           (Some s1, Some s2, Some s3, Some s4) \<Rightarrow>
             (case atob rest of
                Inl e \<Rightarrow> Inl e
              | Inr bs \<Rightarrow>
                  Inr ([char_of (s1 * 4 + s2 div 16), char_of ((s2 mod 16) * 16 + s3 div 4),
                        char_of ((s3 mod 4) * 64 + s4)] @ bs))
         | _ \<Rightarrow> Inl InvalidCharacterError))"
| "atob _ = Inl InvalidCharacterError"

text \<open>Modelled from the spec: \<open>base64ToArrayBuffer\<close> of \<open>utils/audioUtils\<close> is not among
  the sources. The spec calls it \<open>wireToFrame\<close>, the exact inverse of the transport encoding;
  the encoding in the sources is \<open>btoa\<close> of the binary string, so the inverse is \<open>atob\<close>
  followed by the character codes of its result.\<close>

definition base64ToArrayBuffer :: "string \<Rightarrow> js_error + byte list" where
  "base64ToArrayBuffer base64 =
     (case atob base64 of Inl e \<Rightarrow> Inl e | Inr binary \<Rightarrow> Inr (map charCodeAt binary))"

subsection \<open>Samples\<close>

text \<open>\<open>new Int16Array(buffer)\<close>: a view of the bytes as little-endian 16-bit integers;
  the constructor raises \<open>RangeError\<close> when the byte length is odd.\<close>

fun int16_view :: "byte list \<Rightarrow> int16 list" where
  "int16_view (lo # hi # rest) = word_cat hi lo # int16_view rest"
| "int16_view _ = []"

definition Int16Array :: "byte list \<Rightarrow> js_error + int16 list" where
  "Int16Array buffer = (if odd (length buffer) then Inl RangeError else Inr (int16_view buffer))"

text \<open>The loop \<open>float32Data[i] = int16Array[i] / 32768.0\<close>.\<close>

definition to_float32 :: "int16 list \<Rightarrow> real list" where
  "to_float32 int16Array = map (\<lambda>w. real_of_int (sint w) / 32768) int16Array"

definition decode :: "byte list \<Rightarrow> js_error + real list" where
  "decode bufferData =
     (case Int16Array bufferData of Inl e \<Rightarrow> Inl e | Inr a \<Rightarrow> Inr (to_float32 a))"

text \<open>\<open>new Uint8Array(pcm16.buffer)\<close>: the bytes of the 16-bit integers, low byte first.\<close>

fun uint8_view :: "int16 list \<Rightarrow> byte list" where
  "uint8_view [] = []"
| "uint8_view (w # ws) = ucast w # ucast (drop_bit 8 w) # uint8_view ws"

text \<open>Modelled from the spec: \<open>float32ToInt16\<close> of \<open>utils/audioUtils\<close> is not among the
  sources. The spec's \<open>encode\<close> clamps each sample to the interval from \<open>-1\<close> to \<open>1\<close>, scales
  it to the signed 16-bit range, and truncates or rounds. The scale is the factor 32768 that
  \<open>decode\<close>, its inverse, divides by, and the result is kept within the signed 16-bit
  range from \<open>-32768\<close> to \<open>32767\<close>.\<close>

datatype quantiser = Truncate | Round

text \<open>Modelled from the spec: "truncates/rounds", towards zero or to the nearest integer.\<close>

definition quantise :: "quantiser \<Rightarrow> real \<Rightarrow> int" where
  "quantise q v =
     (case q of
        Truncate \<Rightarrow> (if v < 0 then \<lceil>v\<rceil> else \<lfloor>v\<rfloor>)
      | Round \<Rightarrow> \<lfloor>v + 1 / 2\<rfloor>)"

text \<open>Modelled from the spec: "clamps each sample to [-1,1]".\<close>

definition clamp_sample :: "real \<Rightarrow> real" where
  "clamp_sample x = max (- 1) (min 1 x)"

text \<open>Modelled from the spec: one sample of \<open>float32ToInt16\<close>, clamped, scaled by 32768,
  truncated or rounded, and kept within the signed 16-bit range.\<close>

definition encode_sample :: "quantiser \<Rightarrow> real \<Rightarrow> int16" where
  "encode_sample q x =
     word_of_int (max (- 32768) (min 32767 (quantise q (clamp_sample x * 32768))))"

text \<open>Modelled from the spec: \<open>float32ToInt16\<close>, sample by sample.\<close>

definition float32ToInt16 :: "quantiser \<Rightarrow> real list \<Rightarrow> int16 list" where
  "float32ToInt16 q float32 = map (encode_sample q) float32"

text \<open>The bytes that \<open>onaudioprocess\<close> hands to the transport encoding:
  \<open>new Uint8Array(float32ToInt16(inputData).buffer)\<close>.\<close>

definition encode :: "quantiser \<Rightarrow> real list \<Rightarrow> byte list" where
  "encode q samples = uint8_view (float32ToInt16 q samples)"

section \<open>Messages and platform objects\<close>

text \<open>\<open>Message\<close> of \<open>types.ts\<close>. The identifiers the component builds (\<open>'init'\<close>,
  \<open>'sys-start'\<close>, \<open>Date.now() + 'sys-lang'\<close>, \<open>Date.now().toString() + 'u'\<close> and
  \<open>... + 'm'\<close>) are kept as a datatype; a timestamp is the clock reading in milliseconds.\<close>

datatype msg_role = User | Model | System

datatype msg_ident = IdInit | IdSysStart | IdSysLang nat | IdUser nat | IdModel nat

record message =
  msg_id :: msg_ident
  role :: msg_role
  msg_text :: string
  timestamp :: nat

text \<open>\<open>LiveServerMessage\<close>, reduced to the four parts the handler reads.\<close>

record server_msg =
  audioData :: "string option"
  outputTranscription :: "string option option"
  inputTranscription :: "string option option"
  turnComplete :: bool

text \<open>The objects the browser and the remote service hand out. They live in a store,
  \<open>platform\<close>, and a reference of the component is an index into one of its lists, so that
  an object the component no longer refers to is still there, released or not.\<close>

datatype track_kind = AudioKind | VideoKind

record track =
  kind :: track_kind
  live :: bool

type_synonym media_stream = "track list"

record audio_context =
  sampleRate :: nat
  ctx_closed :: bool

record script_processor =
  proc_connected :: bool
  proc_handler :: bool

record buffer_source =
  src_ctx :: nat
  src_buffer :: "real list"
  via_gain :: bool
  start_time :: real
  src_duration :: real
  src_ended :: bool

text \<open>A session of the remote service: the instruction it was opened with, and the
  variables its callbacks close over (\<open>outCtx\<close>, \<open>processor\<close> and the two mode flags of
  the render that called \<open>connect\<close>).\<close>

record live_session =
  systemInstruction :: string
  c_outCtx :: nat
  c_processor :: nat
  c_translationEnabled :: bool
  c_diarizationEnabled :: bool
  sess_closed :: bool

record platform =
  contexts :: "audio_context list"
  streams :: "media_stream list"
  processors :: "script_processor list"
  sessions :: "live_session list"
  sources :: "buffer_source list"

datatype log_level = Log | Warn | Err

section \<open>The component \<open>LiveAgent\<close>\<close>

text \<open>The state hooks and the references of the component, the console, the calls made
  to \<open>saveTranscript\<close>, and the store of platform objects.\<close>

record agent =
  isActive :: bool
  error :: "string option"
  transcripts :: "message list"
  streamingInput :: string
  volume :: real
  useSystemAudio :: bool
  diarizationEnabled :: bool
  translationEnabled :: bool
  showOriginalOnly :: bool
  agentVolume :: real
  audioContextRef :: "nat option"
  inputContextRef :: "nat option"
  mediaStreamsRef :: "nat list"
  processorRef :: "nat option"
  sessionRef :: "nat option"
  nextStartTimeRef :: real
  sourcesRef :: "nat list"
  outputGainRef :: "real option"
  turnLanguageDetectedRef :: bool
  currentInputTransRef :: string
  currentOutputTransRef :: string
  console :: "(log_level \<times> string) list"
  saved :: "(string \<times> msg_role \<times> string) list"
  platform :: platform

text \<open>The first render followed by the mount effect, which writes the first message.\<close>

definition initial :: "nat \<Rightarrow> agent" where
  "initial date =
     \<lparr> isActive = False, error = None,
       transcripts = [\<lparr> msg_id = IdInit, role = System,
          msg_text = ''EBURON Live Core initialized. Configure audio and connect.'',
          timestamp = date \<rparr>],
       streamingInput = [], volume = 0, useSystemAudio = False, diarizationEnabled = True,
       translationEnabled = False, showOriginalOnly = False, agentVolume = 1,
       audioContextRef = None, inputContextRef = None, mediaStreamsRef = [],
       processorRef = None, sessionRef = None, nextStartTimeRef = 0, sourcesRef = [],
       outputGainRef = None, turnLanguageDetectedRef = False, currentInputTransRef = [],
       currentOutputTransRef = [], console = [], saved = [],
       platform = \<lparr> contexts = [], streams = [], processors = [], sessions = [],
         sources = [] \<rparr> \<rparr>"

subsection \<open>\<open>cleanupAudio\<close>\<close>

definition stop_tracks :: "platform \<Rightarrow> nat \<Rightarrow> platform" where
  "stop_tracks p i = p\<lparr>streams := (streams p)[i := map (\<lambda>t. t\<lparr>live := False\<rparr>) (streams p ! i)]\<rparr>"

definition disconnect :: "platform \<Rightarrow> nat \<Rightarrow> platform" where
  "disconnect p i = p\<lparr>processors := (processors p)[i := (processors p ! i)\<lparr>proc_connected := False\<rparr>]\<rparr>"

definition close_context :: "platform \<Rightarrow> nat \<Rightarrow> platform" where
  "close_context p i = p\<lparr>contexts := (contexts p)[i := (contexts p ! i)\<lparr>ctx_closed := True\<rparr>]\<rparr>"

definition close_session :: "platform \<Rightarrow> nat \<Rightarrow> platform" where
  "close_session p i = p\<lparr>sessions := (sessions p)[i := (sessions p ! i)\<lparr>sess_closed := True\<rparr>]\<rparr>"

definition stop_source :: "platform \<Rightarrow> nat \<Rightarrow> platform" where
  "stop_source p i = p\<lparr>sources := (sources p)[i := (sources p ! i)\<lparr>src_ended := True\<rparr>]\<rparr>"

definition on_ref :: "(platform \<Rightarrow> nat \<Rightarrow> platform) \<Rightarrow> nat option \<Rightarrow> platform \<Rightarrow> platform" where
  "on_ref f r p = (case r of None \<Rightarrow> p | Some i \<Rightarrow> f p i)"

text \<open>The teardown, in the order of the source: tracks, processor, the two contexts, the
  session, the playing sources, then the state that is reset.\<close>

definition cleanupAudio :: "agent \<Rightarrow> agent" where
  "cleanupAudio s =
     (let p1 = foldl stop_tracks (platform s) (mediaStreamsRef s);
          p2 = on_ref disconnect (processorRef s) p1;
          p3 = on_ref close_context (inputContextRef s) p2;
          p4 = on_ref close_context (audioContextRef s) p3;
          p5 = on_ref close_session (sessionRef s) p4;
          p6 = foldl stop_source p5 (sourcesRef s)
      in s\<lparr> platform := p6, mediaStreamsRef := [], processorRef := None,
            inputContextRef := None, audioContextRef := None, outputGainRef := None,
            sessionRef := None, sourcesRef := [], isActive := False,
            nextStartTimeRef := 0, volume := 0, streamingInput := [],
            turnLanguageDetectedRef := False \<rparr>)"

subsection \<open>\<open>onmessage\<close>\<close>

text \<open>"Handle Audio Output": skipped when there is no audio or the string is empty;
  otherwise the bytes are decoded, a source is scheduled on \<open>outCtx\<close> at
  \<open>Math.max(now, nextStartTimeRef.current)\<close>, the cursor moves to the end of the segment,
  and the source is registered. \<open>createBuffer\<close> refuses a length of zero.\<close>

definition handle_audio :: "live_session \<Rightarrow> string option \<Rightarrow> real \<Rightarrow> agent \<Rightarrow> js_error + agent" where
  "handle_audio c data now s =
     (case data of
        None \<Rightarrow> Inr s
      | Some d \<Rightarrow>
          if d = [] then Inr s
          else
            (case base64ToArrayBuffer d of
               Inl e \<Rightarrow> Inl e
             | Inr bufferData \<Rightarrow>
                 (case decode bufferData of
                    Inl e \<Rightarrow> Inl e
                  | Inr float32Data \<Rightarrow>
                      if length float32Data = 0 then Inl NotSupportedError
                      else
                        (let duration = real (length float32Data) / 24000;
                             startTime = max now (nextStartTimeRef s);
                             source = \<lparr> src_ctx = c_outCtx c, src_buffer = float32Data,
                               via_gain = (outputGainRef s \<noteq> None), start_time = startTime,
                               src_duration = duration, src_ended = False \<rparr>;
                             p = platform s
                         in Inr (s\<lparr> platform := p\<lparr>sources := sources p @ [source]\<rparr>,
                                  nextStartTimeRef := startTime + duration,
                                  sourcesRef := sourcesRef s @ [length (sources p)] \<rparr>)))))"

text \<open>"Handle Transcription", output side: append, then look for the language tag.\<close>

definition handle_output :: "string option option \<Rightarrow> nat \<Rightarrow> agent \<Rightarrow> agent" where
  "handle_output tr date s =
     (case tr of
        None \<Rightarrow> s
      | Some t \<Rightarrow>
          (let s1 = s\<lparr>currentOutputTransRef := js_append (currentOutputTransRef s) t\<rparr>
           in case lang_match (currentOutputTransRef s1) of
                None \<Rightarrow> s1
              | Some detectedLang \<Rightarrow>
                  if turnLanguageDetectedRef s1 then s1
                  else s1\<lparr> transcripts := transcripts s1 @
                              [\<lparr> msg_id = IdSysLang date, role = System,
                                 msg_text = ''Language Detected: '' @ detectedLang,
                                 timestamp = date \<rparr>],
                            turnLanguageDetectedRef := True \<rparr>))"

definition handle_input :: "string option option \<Rightarrow> agent \<Rightarrow> agent" where
  "handle_input tr s =
     (case tr of
        None \<Rightarrow> s
      | Some t \<Rightarrow>
          (let acc = js_append (currentInputTransRef s) t
           in s\<lparr>currentInputTransRef := acc, streamingInput := acc\<rparr>))"

definition finalize_input :: "nat \<Rightarrow> agent \<Rightarrow> agent" where
  "finalize_input date s =
     (if trim (currentInputTransRef s) \<noteq> [] then
        (let text = currentInputTransRef s
         in s\<lparr> transcripts := transcripts s @
                  [\<lparr> msg_id = IdUser date, role = User, msg_text = text, timestamp = date \<rparr>],
                saved := saved s @ [(text, User, ''live'')],
                currentInputTransRef := [], streamingInput := [] \<rparr>)
      else s)"

definition finalize_output :: "nat \<Rightarrow> agent \<Rightarrow> agent" where
  "finalize_output date s =
     (if trim (currentOutputTransRef s) \<noteq> [] then
        (let text = strip_lang (currentOutputTransRef s)
         in s\<lparr> transcripts := transcripts s @
                  [\<lparr> msg_id = IdModel date, role = Model, msg_text = text, timestamp = date \<rparr>],
                saved := saved s @ [(text, Model, ''live'')],
                currentOutputTransRef := [], turnLanguageDetectedRef := False \<rparr>)
      else s)"

definition handle_turn_complete :: "bool \<Rightarrow> nat \<Rightarrow> agent \<Rightarrow> agent" where
  "handle_turn_complete tc date s = (if tc then finalize_output date (finalize_input date s) else s)"

text \<open>The handler. An exception raised while the audio is handled leaves the handler at
  once: the state is as before the message, and the exception is the first component of
  the result.\<close>

definition onmessage :: "live_session \<Rightarrow> server_msg \<Rightarrow> real \<Rightarrow> nat \<Rightarrow> agent \<Rightarrow> js_error option \<times> agent" where
  "onmessage c msg now date s =
     (case handle_audio c (audioData msg) now s of
        Inl e \<Rightarrow> (Some e, s)
      | Inr s1 \<Rightarrow>
          (None, handle_turn_complete (turnComplete msg) date
                   (handle_input (inputTranscription msg)
                      (handle_output (outputTranscription msg) date s1))))"

text \<open>A sequence of messages of one session, each with the readings of the audio clock
  and of the wall clock at its arrival.\<close>

fun deliver :: "live_session \<Rightarrow> (server_msg \<times> real \<times> nat) list \<Rightarrow> agent \<Rightarrow> agent" where
  "deliver c [] s = s"
| "deliver c ((msg, now, date) # evs) s = deliver c evs (snd (onmessage c msg now date s))"

subsection \<open>\<open>connect\<close> and the callbacks of the session\<close>

definition baseInstruction :: string where
  \<open>baseInstruction = ''\<newline>      You are EBURON.\<newline>      \<newline>      CRITICAL LANGUAGE DETECTION PROTOCOL:\<newline>      1. Continuously analyze the language of the user's input audio.\<newline>      2. If you detect a language, YOU MUST start your textual response with [LANG:LanguageName] (e.g. [LANG:English], [LANG:Spanish], [LANG:Tagalog]).\<newline>      3. CRITICAL: DO NOT SPEAK this tag. It is for metadata only. The audio output must only contain your natural response.\<newline>      ''\<close>

definition translator_wording :: string where
  \<open>translator_wording = ''\<newline>          MODE: REAL-TIME TRANSLATOR.\<newline>          1. Translate the input audio into English (or the most logical target language).\<newline>          2. Output ONLY the translation text after the [LANG:...] tag.\<newline>          3. Do not converse.\<newline>          ''\<close>

definition diarization_wording :: string where
  \<open>diarization_wording = ''\<newline>          MODE: ADVANCED SPEAKER DIARIZATION.\<newline>          1. Actively identify distinct voices ([Speaker 1], [Speaker 2]).\<newline>          2. Prepend speaker labels to your text response (after the [LANG:...] tag).\<newline>          3. Example: "[LANG:English] [Speaker 1]: Hello."\<newline>          ''\<close>

definition assistant_wording :: string where
  \<open>assistant_wording = ''\<newline>          MODE: ASSISTANT.\<newline>          1. Be helpful, concise, and speak naturally.\<newline>          ''\<close>

text \<open>The \<open>if\<close> chain that fills \<open>systemInstruction\<close>.\<close>

definition build_instruction :: "bool \<Rightarrow> bool \<Rightarrow> string" where
  "build_instruction translation diarization =
     (if translation then baseInstruction @ translator_wording
      else if diarization then baseInstruction @ diarization_wording
      else baseInstruction @ assistant_wording)"

text \<open>The text of the message that \<open>onopen\<close> appends.\<close>

definition connected_text :: "bool \<Rightarrow> bool \<Rightarrow> string" where
  "connected_text translation diarization =
     (if translation then ''Translator Mode Active.''
      else (if diarization then ''Secure Link Established. Speaker ID Active.''
            else ''Secure Link Established.''))"

text \<open>What the environment answers during one run of \<open>connect\<close>: the step whose
  platform call throws, if any, with the message of the exception, and the answer to the
  request for the display stream (shared, with or without an audio track, or cancelled).\<close>

datatype connect_step =
  AtGenAI | AtInputContext | AtOutputContext | AtMicrophone | AtProcessor | AtLiveConnect

datatype display_result = Shared bool | Cancelled

record connect_env =
  failure :: "(connect_step \<times> string) option"
  display :: display_result

definition thrown :: "connect_env \<Rightarrow> connect_step \<Rightarrow> string option" where
  "thrown env step =
     (case failure env of
        None \<Rightarrow> None
      | Some (st, m) \<Rightarrow> if st = step then Some m else None)"

text \<open>The \<open>catch\<close> block of \<open>connect\<close>.\<close>

definition catch_connect :: "string \<Rightarrow> agent \<Rightarrow> agent" where
  "catch_connect m s =
     cleanupAudio (s\<lparr> console := console s @ [(Err, m)],
                      error := Some (if m = [] then ''Failed to initialize audio subsystem.'' else m) \<rparr>)"

definition new_context :: "nat \<Rightarrow> agent \<Rightarrow> agent" where
  "new_context rate s =
     s\<lparr>platform := (platform s)\<lparr>contexts := contexts (platform s) @
          [\<lparr> sampleRate = rate, ctx_closed = False \<rparr>]\<rparr>\<rparr>"

text \<open>A stream is pushed on \<open>mediaStreamsRef\<close> as soon as it is granted.\<close>

definition push_stream :: "media_stream \<Rightarrow> agent \<Rightarrow> agent" where
  "push_stream st s =
     s\<lparr> platform := (platform s)\<lparr>streams := streams (platform s) @ [st]\<rparr>,
        mediaStreamsRef := mediaStreamsRef s @ [length (streams (platform s))] \<rparr>"

text \<open>Step 4, "Acquire System Audio (Optional)", with its own \<open>try\<close>.\<close>

definition system_audio :: "display_result \<Rightarrow> agent \<Rightarrow> agent" where
  "system_audio r s =
     (case r of
        Cancelled \<Rightarrow>
          s\<lparr>console := console s @ [(Warn, ''System audio selection cancelled or failed'')]\<rparr>
      | Shared has_audio \<Rightarrow>
          (let s1 = push_stream
                 (\<lparr> kind = VideoKind, live = True \<rparr> #
                    (if has_audio then [\<lparr> kind = AudioKind, live = True \<rparr>] else [])) s
           in if has_audio then s1
              else s1\<lparr>console := console s1 @ [(Warn, ''User did not share system audio.'')]\<rparr>))"

definition connect :: "connect_env \<Rightarrow> agent \<Rightarrow> agent" where
  "connect env s0 =
     (let s1 = s0\<lparr>error := None\<rparr>
      in case thrown env AtGenAI of Some m \<Rightarrow> catch_connect m s1 | None \<Rightarrow>
         (case thrown env AtInputContext of Some m \<Rightarrow> catch_connect m s1 | None \<Rightarrow>
         (let inCtx = length (contexts (platform s1));
              s2 = new_context 16000 s1
          in case thrown env AtOutputContext of Some m \<Rightarrow> catch_connect m s2 | None \<Rightarrow>
         (let outCtx = length (contexts (platform s2));
              s3 = (new_context 24000 s2)\<lparr> inputContextRef := Some inCtx,
                     audioContextRef := Some outCtx, outputGainRef := Some (agentVolume s2) \<rparr>
          in case thrown env AtMicrophone of Some m \<Rightarrow> catch_connect m s3 | None \<Rightarrow>
         (let s4 = push_stream [\<lparr> kind = AudioKind, live = True \<rparr>] s3;
              s5 = (if useSystemAudio s4 then system_audio (display env) s4 else s4)
          in case thrown env AtProcessor of Some m \<Rightarrow> catch_connect m s5 | None \<Rightarrow>
         (let proc = length (processors (platform s5));
              s6 = s5\<lparr> platform := (platform s5)\<lparr>processors := processors (platform s5) @
                         [\<lparr> proc_connected = True, proc_handler = False \<rparr>]\<rparr>,
                       processorRef := Some proc \<rparr>
          in case thrown env AtLiveConnect of Some m \<Rightarrow> catch_connect m s6 | None \<Rightarrow>
               s6\<lparr> platform := (platform s6)\<lparr>sessions := sessions (platform s6) @
                       [\<lparr> systemInstruction =
                            build_instruction (translationEnabled s6) (diarizationEnabled s6),
                          c_outCtx = outCtx, c_processor = proc,
                          c_translationEnabled = translationEnabled s6,
                          c_diarizationEnabled = diarizationEnabled s6,
                          sess_closed = False \<rparr>]\<rparr>,
                    sessionRef := Some (length (sessions (platform s6))) \<rparr>))))))"

definition onopen :: "live_session \<Rightarrow> nat \<Rightarrow> agent \<Rightarrow> agent" where
  "onopen c date s =
     s\<lparr> console := console s @ [(Log, ''EBURON Link Established'')],
        isActive := True,
        transcripts := transcripts s @
          [\<lparr> msg_id = IdSysStart, role = System,
             msg_text = connected_text (c_translationEnabled c) (c_diarizationEnabled c),
             timestamp = date \<rparr>],
        platform := (platform s)\<lparr>processors := (processors (platform s))
          [c_processor c := (processors (platform s) ! c_processor c)\<lparr>proc_handler := True\<rparr>]\<rparr> \<rparr>"

definition onclose :: "agent \<Rightarrow> agent" where
  "onclose s = cleanupAudio (s\<lparr>console := console s @ [(Log, ''EBURON Link Closed'')]\<rparr>)"

definition onerror :: "string \<Rightarrow> agent \<Rightarrow> agent" where
  "onerror m s =
     cleanupAudio (s\<lparr> console := console s @ [(Err, ''EBURON Link Error'')],
                      error := Some (''Connection interrupted. '' @
                                (if m = [] then ''Unknown error'' else m)) \<rparr>)"

text \<open>\<open>source.onended = () => sourcesRef.current.delete(source)\<close>, fired by the platform
  when the source \<open>i\<close> has played to its end.\<close>

definition onended :: "nat \<Rightarrow> agent \<Rightarrow> agent" where
  "onended i s = s\<lparr> platform := stop_source (platform s) i,
                     sourcesRef := removeAll i (sourcesRef s) \<rparr>"

text \<open>The main action button: \<open>onClick={isActive ? cleanupAudio : connect}\<close>.\<close>

definition onClick :: "connect_env \<Rightarrow> agent \<Rightarrow> agent" where
  "onClick env s = (if isActive s then cleanupAudio s else connect env s)"

text \<open>Whether some object of the store is still held: a live track, a connected
  processor, an open context, an open session, or a source that has neither been stopped
  nor played to its end.\<close>

definition outstanding :: "agent \<Rightarrow> bool" where
  "outstanding s =
     (list_ex (list_ex live) (streams (platform s))
      \<or> list_ex proc_connected (processors (platform s))
      \<or> list_ex (\<lambda>c. \<not> ctx_closed c) (contexts (platform s))
      \<or> list_ex (\<lambda>x. \<not> sess_closed x) (sessions (platform s))
      \<or> list_ex (\<lambda>x. \<not> src_ended x) (sources (platform s)))"

subsection \<open>The scheduling rule of the playback cursor\<close>

text \<open>The samples of the segment that a message makes playable: none when the message
  carries no audio, or when its audio does not decode to at least one sample.\<close>

definition segment_of :: "server_msg \<Rightarrow> real list option" where
  "segment_of msg =
     (case audioData msg of
        None \<Rightarrow> None
      | Some d \<Rightarrow>
          if d = [] then None
          else (case base64ToArrayBuffer d of
                  Inl e \<Rightarrow> None
                | Inr bufferData \<Rightarrow>
                    (case decode bufferData of
                       Inl e \<Rightarrow> None
                     | Inr float32Data \<Rightarrow> if float32Data = [] then None else Some float32Data)))"

text \<open>The rule in the words of the specification: a segment starts at the later of the
  clock and the cursor, and the cursor moves to the end of the segment. The result is the
  list of (start, duration) pairs and the final cursor.\<close>

fun schedule_by_rule :: "real \<Rightarrow> (server_msg \<times> real \<times> nat) list \<Rightarrow> (real \<times> real) list \<times> real" where
  "schedule_by_rule t [] = ([], t)"
| "schedule_by_rule t ((msg, now, date) # evs) =
     (case segment_of msg of
        None \<Rightarrow> schedule_by_rule t evs
      | Some samples \<Rightarrow>
          (let start = max now t; d = real (length samples) / 24000;
               r = schedule_by_rule (start + d) evs
           in ((start, d) # fst r, snd r)))"

text \<open>No overlap: from time \<open>t\<close> on, every segment starts no earlier than the end of the
  one before it.\<close>

fun chained :: "real \<Rightarrow> (real \<times> real) list \<Rightarrow> bool" where
  "chained t [] = True"
| "chained t ((start, d) # xs) = (t \<le> start \<and> chained (start + d) xs)"

text \<open>The (start, duration) pairs of all sources scheduled so far, in the order of their
  creation.\<close>

definition scheduled :: "agent \<Rightarrow> (real \<times> real) list" where
  "scheduled s = map (\<lambda>x. (start_time x, src_duration x)) (sources (platform s))"

subsection \<open>Reading the transcript log\<close>

text \<open>The user messages, the model messages and the system messages of the log.\<close>

definition user_messages :: "message list \<Rightarrow> message list" where
  "user_messages ms = filter (\<lambda>m. role m = User) ms"

definition model_messages :: "message list \<Rightarrow> message list" where
  "model_messages ms = filter (\<lambda>m. role m = Model) ms"

definition system_messages :: "message list \<Rightarrow> message list" where
  "system_messages ms = filter (\<lambda>m. role m = System) ms"

text \<open>Role and text of each message of the log, in order.\<close>

definition shown :: "message list \<Rightarrow> (msg_role \<times> string) list" where
  "shown ms = map (\<lambda>m. (role m, msg_text m)) ms"

text \<open>The notice that reports a detected language, as role and text.\<close>

definition language_notice :: "string option \<Rightarrow> (msg_role \<times> string) list" where
  "language_notice tag =
     (case tag of None \<Rightarrow> [] | Some name \<Rightarrow> [(System, ''Language Detected: '' @ name)])"

text \<open>The guard flag of the language notice is in step with the output accumulator: it is
  set exactly when the accumulator starts with a language tag.\<close>

definition flag_tracks_tag :: "agent \<Rightarrow> bool" where
  "flag_tracks_tag s = (turnLanguageDetectedRef s = (lang_match (currentOutputTransRef s) \<noteq> None))"

subsection \<open>The mode of a session\<close>

text \<open>The mode in the words of the specification: exactly one of three, translation
  before diarization; with the wording the instruction carries for each mode and the text
  of the message that announces it.\<close>

datatype mode = Translator | Diarization | Assistant

definition selected_mode :: "bool \<Rightarrow> bool \<Rightarrow> mode" where
  "selected_mode translation diarization =
     (if translation then Translator else if diarization then Diarization else Assistant)"

fun mode_wording :: "mode \<Rightarrow> string" where
  "mode_wording Translator = translator_wording"
| "mode_wording Diarization = diarization_wording"
| "mode_wording Assistant = assistant_wording"

fun mode_notice :: "mode \<Rightarrow> string" where
  "mode_notice Translator = ''Translator Mode Active.''"
| "mode_notice Diarization = ''Secure Link Established. Speaker ID Active.''"
| "mode_notice Assistant = ''Secure Link Established.''"

subsection \<open>Outcomes of \<open>connect\<close> and the resources held\<close>

text \<open>The streams and the console warnings that step 3 and step 4 of \<open>connect\<close> add.\<close>

definition microphone_stream :: media_stream where
  "microphone_stream = [\<lparr> kind = AudioKind, live = True \<rparr>]"

definition display_streams :: "bool \<Rightarrow> display_result \<Rightarrow> media_stream list" where
  "display_streams requested r =
     (if requested
      then (case r of
              Cancelled \<Rightarrow> []
            | Shared has_audio \<Rightarrow>
                [\<lparr> kind = VideoKind, live = True \<rparr> #
                   (if has_audio then [\<lparr> kind = AudioKind, live = True \<rparr>] else [])])
      else [])"

definition display_warning :: "bool \<Rightarrow> display_result \<Rightarrow> (log_level \<times> string) list" where
  "display_warning requested r =
     (if requested
      then (case r of
              Cancelled \<Rightarrow> [(Warn, ''System audio selection cancelled or failed'')]
            | Shared has_audio \<Rightarrow>
                if has_audio then [] else [(Warn, ''User did not share system audio.'')])
      else [])"

text \<open>Closing the context a reference points to, if any.\<close>

definition close_at :: "nat option \<Rightarrow> audio_context list \<Rightarrow> audio_context list" where
  "close_at r cs = (case r of None \<Rightarrow> cs | Some i \<Rightarrow> cs[i := (cs ! i)\<lparr>ctx_closed := True\<rparr>])"

text \<open>Every object of the store that is still held is referenced by the component: a
  stream with a live track is in \<open>mediaStreamsRef\<close>, a connected processor is the one of
  \<open>processorRef\<close>, an open context is the one of \<open>inputContextRef\<close> or of
  \<open>audioContextRef\<close>, an open session is the one of \<open>sessionRef\<close>, and a source that has not
  ended is in \<open>sourcesRef\<close>.\<close>

definition tracked :: "agent \<Rightarrow> bool" where
  "tracked s =
     (let p = platform s
      in list_all (\<lambda>i. i \<in> set (mediaStreamsRef s) \<or> list_all (\<lambda>t. \<not> live t) (streams p ! i))
           [0..<length (streams p)]
       \<and> list_all (\<lambda>i. processorRef s = Some i \<or> \<not> proc_connected (processors p ! i))
           [0..<length (processors p)]
       \<and> list_all (\<lambda>i. inputContextRef s = Some i \<or> audioContextRef s = Some i
                         \<or> ctx_closed (contexts p ! i))
           [0..<length (contexts p)]
       \<and> list_all (\<lambda>i. sessionRef s = Some i \<or> sess_closed (sessions p ! i))
           [0..<length (sessions p)]
       \<and> list_all (\<lambda>i. i \<in> set (sourcesRef s) \<or> src_ended (sources p ! i))
           [0..<length (sources p)])"

subsection \<open>Sample inputs\<close>

text \<open>The closure of the session that the first \<open>connect\<close> of a fresh component opens.\<close>

definition session0 :: live_session where
  "session0 = \<lparr> systemInstruction = build_instruction False True, c_outCtx = 1, c_processor = 0,
     c_translationEnabled = False, c_diarizationEnabled = True, sess_closed = False \<rparr>"

text \<open>Messages that carry a single part.\<close>

definition input_delta :: "string \<Rightarrow> server_msg" where
  "input_delta t = \<lparr> audioData = None, outputTranscription = None,
     inputTranscription = Some (Some t), turnComplete = False \<rparr>"


definition turn_complete :: server_msg where
  "turn_complete = \<lparr> audioData = None, outputTranscription = None,
     inputTranscription = None, turnComplete = True \<rparr>"

text \<open>An environment in which no platform call of \<open>connect\<close> throws.\<close>

definition succeeds :: "display_result \<Rightarrow> connect_env" where
  "succeeds d = \<lparr> failure = None, display = d \<rparr>"

text \<open>The component after the first \<open>connect\<close> and \<open>onopen\<close>, and a message whose audio
  is three bytes long and which also carries an input delta and the end of the turn.\<close>

definition live0 :: agent where
  "live0 = onopen session0 1 (connect (succeeds Cancelled) (initial 0))"

definition odd_frame :: server_msg where
  "odd_frame = \<lparr> audioData = Some ''AAEC'', outputTranscription = None,
     inputTranscription = Some (Some ''x''), turnComplete = True \<rparr>"

text \<open>The environment in which the constructor of the output context throws, after the
  input context has been created.\<close>

definition output_context_fails :: connect_env where
  "output_context_fails = \<lparr> failure = Some (AtOutputContext, ''NotSupportedError''), display = Cancelled \<rparr>"

section \<open>Properties\<close>

subsection \<open>Playback scheduling\<close>

lemma handle_output_frame [simp]:
  "platform (handle_output tr date s) = platform s"
  "nextStartTimeRef (handle_output tr date s) = nextStartTimeRef s"
  by (simp_all add: handle_output_def Let_def split: option.splits)

lemma handle_input_frame [simp]:
  "platform (handle_input tr s) = platform s"
  "nextStartTimeRef (handle_input tr s) = nextStartTimeRef s"
  by (simp_all add: handle_input_def Let_def split: option.splits)

lemma handle_turn_complete_frame [simp]:
  "platform (handle_turn_complete tc date s) = platform s"
  "nextStartTimeRef (handle_turn_complete tc date s) = nextStartTimeRef s"
  by (simp_all add: handle_turn_complete_def finalize_input_def finalize_output_def Let_def)

lemma segment_of_SomeD:
  assumes "segment_of msg = Some samples"
  obtains d bufferData where "audioData msg = Some d" "d \<noteq> []"
    "base64ToArrayBuffer d = Inr bufferData" "decode bufferData = Inr samples" "samples \<noteq> []"
  using assms unfolding segment_of_def
  by (auto split: option.splits sum.splits if_splits)

lemma handle_audio_None:
  assumes "segment_of msg = None"
  shows "handle_audio c (audioData msg) now s = Inr s \<or> (\<exists>e. handle_audio c (audioData msg) now s = Inl e)"
  using assms unfolding segment_of_def handle_audio_def
  by (auto split: option.splits sum.splits if_splits)

lemma handle_audio_Some:
  assumes "segment_of msg = Some samples"
  shows "\<exists>s1. handle_audio c (audioData msg) now s = Inr s1
       \<and> scheduled s1 = scheduled s @ [(max now (nextStartTimeRef s), real (length samples) / 24000)]
       \<and> nextStartTimeRef s1 = max now (nextStartTimeRef s) + real (length samples) / 24000"
proof -
  from assms obtain d bufferData where *: "audioData msg = Some d" "d \<noteq> []"
    "base64ToArrayBuffer d = Inr bufferData" "decode bufferData = Inr samples" "samples \<noteq> []"
    by (rule segment_of_SomeD)
  show ?thesis
    by (simp add: handle_audio_def * scheduled_def Let_def)
qed

lemma onmessage_skip:
  assumes "segment_of msg = None"
  shows "scheduled (snd (onmessage c msg now date s)) = scheduled s"
    and "nextStartTimeRef (snd (onmessage c msg now date s)) = nextStartTimeRef s"
  using handle_audio_None [OF assms, of c now s]
  by (auto simp: onmessage_def scheduled_def)

lemma onmessage_schedule:
  assumes "segment_of msg = Some samples"
  shows "scheduled (snd (onmessage c msg now date s)) =
           scheduled s @ [(max now (nextStartTimeRef s), real (length samples) / 24000)]"
    and "nextStartTimeRef (snd (onmessage c msg now date s)) =
           max now (nextStartTimeRef s) + real (length samples) / 24000"
  using handle_audio_Some [OF assms, of c now s]
  by (auto simp: onmessage_def scheduled_def)

lemma deliver_schedule:
  "scheduled (deliver c evs s) = scheduled s @ fst (schedule_by_rule (nextStartTimeRef s) evs)
   \<and> nextStartTimeRef (deliver c evs s) = snd (schedule_by_rule (nextStartTimeRef s) evs)"
proof (induction evs arbitrary: s)
  case Nil
  show ?case by simp
next
  case (Cons ev evs)
  obtain msg now date where ev: "ev = (msg, now, date)" by (cases ev)
  show ?case
  proof (cases "segment_of msg")
    case None
    then show ?thesis
      using Cons.IH [of "snd (onmessage c msg now date s)"]
      by (simp add: ev onmessage_skip)
  next
    case (Some samples)
    then show ?thesis
      using Cons.IH [of "snd (onmessage c msg now date s)"]
      by (simp add: ev onmessage_schedule Let_def)
  qed
qed

lemma rule_monotone:
  "t \<le> snd (schedule_by_rule t evs) \<and> chained t (fst (schedule_by_rule t evs))"
proof (induction evs arbitrary: t)
  case Nil
  show ?case by simp
next
  case (Cons ev evs)
  obtain msg now date where ev: "ev = (msg, now, date)" by (cases ev)
  show ?case
  proof (cases "segment_of msg")
    case None
    then show ?thesis using Cons.IH [of t] by (simp add: ev)
  next
    case (Some samples)
    have "t \<le> max now t + real (length samples) / 24000" by (simp add: max_def add_increasing2)
    then show ?thesis
      using Cons.IH [of "max now t + real (length samples) / 24000"] Some
      by (simp add: ev Let_def)
  qed
qed

text \<open>C1. Over every sequence of messages of one session, the sources scheduled and the
  final cursor are those of the rule "start at the later of the clock and the cursor, then
  move the cursor by the duration of the segment"; the cursor never decreases, and each
  newly scheduled segment starts no earlier than the end of the one scheduled before it.\<close>

theorem playback_cursor:
  "scheduled (deliver c evs s) = scheduled s @ fst (schedule_by_rule (nextStartTimeRef s) evs)
   \<and> nextStartTimeRef (deliver c evs s) = snd (schedule_by_rule (nextStartTimeRef s) evs)
   \<and> nextStartTimeRef s \<le> nextStartTimeRef (deliver c evs s)
   \<and> chained (nextStartTimeRef s) (drop (length (scheduled s)) (scheduled (deliver c evs s)))"
  using deliver_schedule [of c evs s] rule_monotone [of "nextStartTimeRef s" evs]
  by simp

subsection \<open>Turn assembly: the input channel\<close>

lemmas handler_defs = onmessage_def handle_audio_def handle_output_def handle_input_def
  handle_turn_complete_def finalize_input_def finalize_output_def js_append_def

lemma finalize_output_user [simp]:
  "user_messages (transcripts (finalize_output date s)) = user_messages (transcripts s)"
  "currentInputTransRef (finalize_output date s) = currentInputTransRef s"
  "streamingInput (finalize_output date s) = streamingInput s"
  by (simp_all add: finalize_output_def user_messages_def Let_def)

lemma handle_output_user [simp]:
  "user_messages (transcripts (handle_output tr date s)) = user_messages (transcripts s)"
  "currentInputTransRef (handle_output tr date s) = currentInputTransRef s"
  "streamingInput (handle_output tr date s) = streamingInput s"
  by (simp_all add: handle_output_def user_messages_def Let_def split: option.splits)

lemma handle_audio_text:
  assumes "handle_audio c d now s = Inr s1"
  shows "transcripts s1 = transcripts s" "currentInputTransRef s1 = currentInputTransRef s"
    "currentOutputTransRef s1 = currentOutputTransRef s"
    "turnLanguageDetectedRef s1 = turnLanguageDetectedRef s" "streamingInput s1 = streamingInput s"
  using assms unfolding handle_audio_def
  by (auto simp: Let_def split: option.splits sum.splits if_splits)

lemma handle_input_effect [simp]:
  "transcripts (handle_input tr s) = transcripts s"
  "currentInputTransRef (handle_input tr s) =
     (case tr of None \<Rightarrow> currentInputTransRef s | Some t \<Rightarrow> js_append (currentInputTransRef s) t)"
  by (simp_all add: handle_input_def Let_def split: option.splits)

lemma finalize_input_effect:
  "user_messages (transcripts (finalize_input date s)) =
     user_messages (transcripts s) @
       (if trim (currentInputTransRef s) \<noteq> []
        then [\<lparr> msg_id = IdUser date, role = User, msg_text = currentInputTransRef s,
                timestamp = date \<rparr>]
        else [])"
  by (simp add: finalize_input_def user_messages_def Let_def)

lemma finalize_input_clears:
  "trim (currentInputTransRef s) \<noteq> [] \<Longrightarrow>
     currentInputTransRef (finalize_input date s) = [] \<and> streamingInput (finalize_input date s) = []"
  by (simp add: finalize_input_def Let_def)

subsection \<open>Turn assembly: the language tag\<close>

lemma length_takeWhile_dropWhile:
  "length (takeWhile P xs) + length (dropWhile P xs) = length xs"
  by (induction xs) auto


lemma in_set_not_Nil: "c \<in> set xs \<Longrightarrow> xs \<noteq> []"
  by auto

lemma lang_match_SomeD:
  assumes "lang_match b = Some n"
  shows "\<exists>rest. b = (''[LANG:'' @ n @ '']'') @ rest"
proof -
  let ?P = "\<lambda>c. c \<noteq> CHR '']''"
  let ?r = "drop 6 b"
  from assms have p: "take 6 b = ''[LANG:''"
    and n: "n = takeWhile ?P ?r"
    and l: "length n < length ?r"
    by (auto simp: lang_match_def Let_def split: if_splits)
  have ne: "dropWhile ?P ?r \<noteq> []"
  proof
    assume e: "dropWhile ?P ?r = []"
    have "length (takeWhile ?P ?r) + length (dropWhile ?P ?r) = length ?r"
      by (rule length_takeWhile_dropWhile)
    then have "length (takeWhile ?P ?r) = length ?r"
      unfolding e by simp
    with l n show False by simp
  qed
  then obtain h rest where d: "dropWhile ?P ?r = h # rest"
    by (cases "dropWhile ?P ?r") auto
  have "\<not> ?P (hd (dropWhile ?P ?r))" using ne by (rule hd_dropWhile)
  with d have h: "h = CHR '']''" by simp
  have r: "?r = n @ CHR '']'' # rest"
    using takeWhile_dropWhile_id [of ?P ?r] n d h by simp
  have "b = take 6 b @ ?r" by simp
  then have "b = ''[LANG:'' @ n @ CHR '']'' # rest" using p r by simp
  then show ?thesis by auto
qed

lemma lang_match_append:
  assumes "lang_match b = Some n"
  shows "lang_match (b @ x) = Some n"
proof -
  let ?P = "\<lambda>c. c \<noteq> CHR '']''"
  from lang_match_SomeD [OF assms] obtain rest where b: "b = (''[LANG:'' @ n @ '']'') @ rest" ..
  from assms have n: "n = takeWhile ?P (drop 6 b)"
    and t: "list_all (\<lambda>c. \<not> line_terminator c) n"
    by (auto simp: lang_match_def Let_def split: if_splits)
  have nb: "\<And>c. c \<in> set n \<Longrightarrow> ?P c"
    using n set_takeWhileD [of _ ?P "drop 6 b"] by auto
  have "takeWhile ?P (n @ CHR '']'' # rest @ x) = n"
    using nb by (simp add: takeWhile_tail)
  then show ?thesis
    using t by (simp add: lang_match_def b Let_def)
qed


lemma dropWhile_keeps:
  "c \<in> set s \<Longrightarrow> \<not> P c \<Longrightarrow> c \<in> set (dropWhile P s)"
  by (induction s) auto

lemma trim_nonblank:
  assumes "c \<in> set s" "\<not> whitespace c"
  shows "trim s \<noteq> []"
proof -
  have "c \<in> set (rev (dropWhile whitespace s))"
    using assms by (simp add: dropWhile_keeps)
  then have "c \<in> set (dropWhile whitespace (rev (dropWhile whitespace s)))"
    using assms(2) by (rule dropWhile_keeps)
  then have "dropWhile whitespace (rev (dropWhile whitespace s)) \<noteq> []"
    by (rule in_set_not_Nil)
  then show ?thesis
    unfolding trim_def by (simp only: rev_is_Nil_conv not_False_eq_True)
qed

lemma lang_match_nonblank:
  assumes "lang_match b = Some n"
  shows "trim b \<noteq> []"
proof -
  from lang_match_SomeD [OF assms] obtain rest where b: "b = (''[LANG:'' @ n @ '']'') @ rest" ..
  have "CHR ''['' \<in> set b" by (subst b) simp
  moreover have "\<not> whitespace CHR ''[''" by (simp add: whitespace_def)
  ultimately show ?thesis by (rule trim_nonblank)
qed


lemma handle_input_out [simp]:
  "currentOutputTransRef (handle_input tr s) = currentOutputTransRef s"
  "turnLanguageDetectedRef (handle_input tr s) = turnLanguageDetectedRef s"
  by (simp_all add: handle_input_def Let_def split: option.splits)

lemma handle_output_detected:
  assumes "turnLanguageDetectedRef s" "lang_match (currentOutputTransRef s) = Some n"
  shows "turnLanguageDetectedRef (handle_output tr date s)
     \<and> transcripts (handle_output tr date s) = transcripts s
     \<and> lang_match (currentOutputTransRef (handle_output tr date s)) = Some n"
proof (cases tr)
  case None
  then show ?thesis using assms by (simp add: handle_output_def)
next
  case (Some t)
  have "lang_match (js_append (currentOutputTransRef s) t) = Some n"
    unfolding js_append_def using assms(2) by (rule lang_match_append)
  then show ?thesis using assms(1) Some by (simp add: handle_output_def Let_def)
qed

lemma handle_output_fresh:
  assumes "\<not> turnLanguageDetectedRef s" "lang_match (currentOutputTransRef s) = None"
  shows "case lang_match (currentOutputTransRef (handle_output tr date s)) of
           None \<Rightarrow> \<not> turnLanguageDetectedRef (handle_output tr date s)
                    \<and> transcripts (handle_output tr date s) = transcripts s
         | Some n \<Rightarrow> turnLanguageDetectedRef (handle_output tr date s)
                    \<and> transcripts (handle_output tr date s) = transcripts s @
                        [\<lparr> msg_id = IdSysLang date, role = System,
                           msg_text = ''Language Detected: '' @ n, timestamp = date \<rparr>]"
  using assms by (cases tr) (simp_all add: handle_output_def Let_def split: option.splits)

lemma onmessage_detected:
  assumes "\<not> turnComplete msg"
    and "turnLanguageDetectedRef s" "lang_match (currentOutputTransRef s) = Some n"
  shows "turnLanguageDetectedRef (snd (onmessage c msg now date s))
     \<and> transcripts (snd (onmessage c msg now date s)) = transcripts s
     \<and> lang_match (currentOutputTransRef (snd (onmessage c msg now date s))) = Some n"
proof (cases "handle_audio c (audioData msg) now s")
  case (Inl e)
  then show ?thesis using assms by (simp add: onmessage_def)
next
  case (Inr s1)
  note t = handle_audio_text [OF Inr]
  have "turnLanguageDetectedRef s1" "lang_match (currentOutputTransRef s1) = Some n"
    using assms t by simp_all
  from handle_output_detected [OF this, of "outputTranscription msg" date]
  show ?thesis using assms(1) Inr by (simp add: onmessage_def handle_turn_complete_def t)
qed

lemma onmessage_fresh:
  assumes "\<not> turnComplete msg"
    and "\<not> turnLanguageDetectedRef s" "lang_match (currentOutputTransRef s) = None"
  shows "case lang_match (currentOutputTransRef (snd (onmessage c msg now date s))) of
           None \<Rightarrow> \<not> turnLanguageDetectedRef (snd (onmessage c msg now date s))
                    \<and> transcripts (snd (onmessage c msg now date s)) = transcripts s
         | Some n \<Rightarrow> turnLanguageDetectedRef (snd (onmessage c msg now date s))
                    \<and> transcripts (snd (onmessage c msg now date s)) = transcripts s @
                        [\<lparr> msg_id = IdSysLang date, role = System,
                           msg_text = ''Language Detected: '' @ n, timestamp = date \<rparr>]"
proof (cases "handle_audio c (audioData msg) now s")
  case (Inl e)
  then show ?thesis using assms by (simp add: onmessage_def)
next
  case (Inr s1)
  note t = handle_audio_text [OF Inr]
  have "\<not> turnLanguageDetectedRef s1" "lang_match (currentOutputTransRef s1) = None"
    using assms t by simp_all
  from handle_output_fresh [OF this, of "outputTranscription msg" date]
  show ?thesis using assms(1) Inr
    by (simp add: onmessage_def handle_turn_complete_def t split: option.splits)
qed

lemma deliver_detected:
  assumes "list_all (\<lambda>ev. \<not> turnComplete (fst ev)) evs"
    and "turnLanguageDetectedRef s" "lang_match (currentOutputTransRef s) = Some n"
  shows "turnLanguageDetectedRef (deliver c evs s)
     \<and> transcripts (deliver c evs s) = transcripts s
     \<and> lang_match (currentOutputTransRef (deliver c evs s)) = Some n"
  using assms
proof (induction evs arbitrary: s)
  case Nil
  then show ?case by simp
next
  case (Cons ev evs)
  obtain msg now date where ev: "ev = (msg, now, date)" by (cases ev)
  from Cons.prems have nt: "\<not> turnComplete msg" and rest: "list_all (\<lambda>ev. \<not> turnComplete (fst ev)) evs"
    by (simp_all add: ev)
  from onmessage_detected [OF nt Cons.prems(2,3), of c now date]
  have *: "turnLanguageDetectedRef (snd (onmessage c msg now date s))"
    "transcripts (snd (onmessage c msg now date s)) = transcripts s"
    "lang_match (currentOutputTransRef (snd (onmessage c msg now date s))) = Some n"
    by simp_all
  from Cons.IH [OF rest *(1) *(3)] *(2) show ?case by (simp add: ev)
qed

lemma deliver_fresh:
  assumes "list_all (\<lambda>ev. \<not> turnComplete (fst ev)) evs"
    and "\<not> turnLanguageDetectedRef s" "lang_match (currentOutputTransRef s) = None"
  shows "shown (transcripts (deliver c evs s)) =
           shown (transcripts s) @ language_notice (lang_match (currentOutputTransRef (deliver c evs s)))
     \<and> turnLanguageDetectedRef (deliver c evs s) =
           (lang_match (currentOutputTransRef (deliver c evs s)) \<noteq> None)"
  using assms
proof (induction evs arbitrary: s)
  case Nil
  then show ?case by (simp add: language_notice_def)
next
  case (Cons ev evs)
  obtain msg now date where ev: "ev = (msg, now, date)" by (cases ev)
  from Cons.prems have nt: "\<not> turnComplete msg" and rest: "list_all (\<lambda>ev. \<not> turnComplete (fst ev)) evs"
    by (simp_all add: ev)
  let ?s' = "snd (onmessage c msg now date s)"
  note step = onmessage_fresh [OF nt Cons.prems(2,3), of c now date]
  show ?case
  proof (cases "lang_match (currentOutputTransRef ?s')")
    case None
    with step have "\<not> turnLanguageDetectedRef ?s'" "transcripts ?s' = transcripts s"
      by simp_all
    with Cons.IH [OF rest this(1) None] show ?thesis by (simp add: ev)
  next
    case (Some n)
    with step have f: "turnLanguageDetectedRef ?s'"
      and t: "transcripts ?s' = transcripts s @
                [\<lparr> msg_id = IdSysLang date, role = System,
                   msg_text = ''Language Detected: '' @ n, timestamp = date \<rparr>]"
      by simp_all
    from deliver_detected [OF rest f Some, of c] t show ?thesis
      by (simp add: ev shown_def language_notice_def)
  qed
qed

subsection \<open>Turn assembly: the end of the turn\<close>

lemma handle_input_model [simp]:
  "model_messages (transcripts (handle_input tr s)) = model_messages (transcripts s)"
  by (simp add: model_messages_def)

lemma finalize_input_out [simp]:
  "currentOutputTransRef (finalize_input date s) = currentOutputTransRef s"
  "turnLanguageDetectedRef (finalize_input date s) = turnLanguageDetectedRef s"
  "model_messages (transcripts (finalize_input date s)) = model_messages (transcripts s)"
  by (simp_all add: finalize_input_def model_messages_def Let_def)

lemma finalize_output_effect:
  "model_messages (transcripts (finalize_output date s)) =
     model_messages (transcripts s) @
       (if trim (currentOutputTransRef s) \<noteq> []
        then [\<lparr> msg_id = IdModel date, role = Model,
                msg_text = strip_lang (currentOutputTransRef s), timestamp = date \<rparr>]
        else [])"
  "turnLanguageDetectedRef (finalize_output date s) =
     (trim (currentOutputTransRef s) = [] \<and> turnLanguageDetectedRef s)"
  "currentOutputTransRef (finalize_output date s) =
     (if trim (currentOutputTransRef s) \<noteq> [] then [] else currentOutputTransRef s)"
  by (simp_all add: finalize_output_def model_messages_def Let_def)

lemma handle_output_acc [simp]:
  "currentOutputTransRef (handle_output tr date s) =
     (case tr of None \<Rightarrow> currentOutputTransRef s | Some t \<Rightarrow> js_append (currentOutputTransRef s) t)"
  "model_messages (transcripts (handle_output tr date s)) = model_messages (transcripts s)"
  by (simp_all add: handle_output_def model_messages_def Let_def split: option.splits)

lemma finalize_system [simp]:
  "system_messages (transcripts (finalize_input date s)) = system_messages (transcripts s)"
  "system_messages (transcripts (finalize_output date s)) = system_messages (transcripts s)"
  by (simp_all add: finalize_input_def finalize_output_def system_messages_def Let_def)

lemma finalize_input_keeps:
  "trim (currentInputTransRef s) = [] \<Longrightarrow> finalize_input date s = s"
  by (simp add: finalize_input_def)


text \<open>C3 (as amended). For every message with \<open>turnComplete\<close>: if the audio of the message
  makes the handler raise, the message is dropped whole and the state is as before, nothing
  is finalized. Otherwise: if the input accumulator (with the delta of the same message
  appended) is not blank, exactly one user message is appended, its text is the accumulator
  as it stands (it is not trimmed), and the accumulator and the live preview are empty
  afterwards; if it is blank, no user message is appended and the accumulator stays. Each
  channel is finalized at most once: the user messages grow by that one message or by none,
  and the model messages by one message (the output accumulator without its tag) or by
  none.\<close>

theorem turn_complete_finalizes_input:
  assumes "turnComplete msg"
  shows "let acc = (case inputTranscription msg of
                      None \<Rightarrow> currentInputTransRef s
                    | Some t \<Rightarrow> js_append (currentInputTransRef s) t);
             out = (case outputTranscription msg of
                      None \<Rightarrow> currentOutputTransRef s
                    | Some t \<Rightarrow> js_append (currentOutputTransRef s) t);
             s' = snd (onmessage c msg now date s)
         in case fst (onmessage c msg now date s) of
              Some e \<Rightarrow> s' = s
            | None \<Rightarrow>
                (if trim acc \<noteq> []
                 then user_messages (transcripts s') = user_messages (transcripts s) @
                        [\<lparr> msg_id = IdUser date, role = User, msg_text = acc, timestamp = date \<rparr>]
                      \<and> currentInputTransRef s' = [] \<and> streamingInput s' = []
                 else user_messages (transcripts s') = user_messages (transcripts s)
                      \<and> currentInputTransRef s' = acc)
              \<and> model_messages (transcripts s') =
                  model_messages (transcripts s) @
                    (if trim out \<noteq> []
                     then [\<lparr> msg_id = IdModel date, role = Model, msg_text = strip_lang out,
                             timestamp = date \<rparr>]
                     else [])"
proof (cases "handle_audio c (audioData msg) now s")
  case (Inl e)
  then show ?thesis by (simp add: onmessage_def Let_def)
next
  case (Inr s1)
  note t = handle_audio_text [OF Inr]
  define s2 where "s2 = handle_input (inputTranscription msg) (handle_output (outputTranscription msg) date s1)"
  define acc where "acc = (case inputTranscription msg of None \<Rightarrow> currentInputTransRef s
       | Some t \<Rightarrow> js_append (currentInputTransRef s) t)"
  define out where "out = (case outputTranscription msg of None \<Rightarrow> currentOutputTransRef s
       | Some t \<Rightarrow> js_append (currentOutputTransRef s) t)"
  have r: "onmessage c msg now date s = (None, finalize_output date (finalize_input date s2))"
    using assms by (simp add: onmessage_def Inr handle_turn_complete_def s2_def)
  have a: "currentInputTransRef s2 = acc"
    by (simp add: s2_def acc_def t split: option.splits)
  have o: "currentOutputTransRef s2 = out"
    by (simp add: s2_def out_def t split: option.splits)
  have u: "user_messages (transcripts s2) = user_messages (transcripts s)"
    by (simp add: s2_def t)
  have m: "model_messages (transcripts s2) = model_messages (transcripts s)"
    by (simp add: s2_def t)
  have i: "if trim acc \<noteq> []
      then user_messages (transcripts (finalize_output date (finalize_input date s2))) =
             user_messages (transcripts s) @
               [\<lparr> msg_id = IdUser date, role = User, msg_text = acc, timestamp = date \<rparr>]
           \<and> currentInputTransRef (finalize_output date (finalize_input date s2)) = []
           \<and> streamingInput (finalize_output date (finalize_input date s2)) = []
      else user_messages (transcripts (finalize_output date (finalize_input date s2))) =
             user_messages (transcripts s)
           \<and> currentInputTransRef (finalize_output date (finalize_input date s2)) = acc"
    using finalize_input_effect [of date s2] finalize_input_clears [of s2 date]
      finalize_input_keeps [of s2 date]
    by (simp add: u a)
  have j: "model_messages (transcripts (finalize_output date (finalize_input date s2))) =
      model_messages (transcripts s) @
        (if trim out \<noteq> []
         then [\<lparr> msg_id = IdModel date, role = Model, msg_text = strip_lang out, timestamp = date \<rparr>]
         else [])"
    by (simp add: finalize_output_effect m o)
  show ?thesis
    unfolding Let_def acc_def [symmetric] out_def [symmetric] r
    using i j by (simp split: if_splits)
qed

text \<open>The deltas \<open>He\<close>, \<open>llo\<close> and then the end of the turn: one user message \<open>Hello\<close>,
  empty buffers.\<close>

theorem turn_complete_finalizes_input_witness:
  "user_messages (transcripts (deliver session0
       [(input_delta ''He'', 0, 5), (input_delta ''llo'', 0, 6), (turn_complete, 0, 7)] (initial 0)))
     = [\<lparr> msg_id = IdUser 7, role = User, msg_text = ''Hello'', timestamp = 7 \<rparr>]
   \<and> currentInputTransRef (deliver session0
       [(input_delta ''He'', 0, 5), (input_delta ''llo'', 0, 6), (turn_complete, 0, 7)] (initial 0)) = []
   \<and> streamingInput (deliver session0
       [(input_delta ''He'', 0, 5), (input_delta ''llo'', 0, 6), (turn_complete, 0, 7)] (initial 0)) = []
   \<and> model_messages (transcripts (deliver session0
       [(input_delta ''He'', 0, 5), (input_delta ''llo'', 0, 6), (turn_complete, 0, 7)] (initial 0))) = []"
  using turn_complete_finalizes_input [where msg = turn_complete and c = session0
      and now = 0 and date = 7
      and s = "deliver session0 [(input_delta ''He'', 0, 5), (input_delta ''llo'', 0, 6)] (initial 0)"]
  by (simp add: handler_defs input_delta_def turn_complete_def initial_def user_messages_def
      model_messages_def trim_def whitespace_def Let_def)

text \<open>The text of the user message is not the trimmed accumulator: the delta \<open>" Hi "\<close>
  is finalized with its blanks.\<close>

theorem untrimmed_user_message:
  "user_messages (transcripts (deliver session0
       [(input_delta '' Hi '', 0, 5), (turn_complete, 0, 6)] (initial 0)))
     = [\<lparr> msg_id = IdUser 6, role = User, msg_text = '' Hi '', timestamp = 6 \<rparr>]
   \<and> trim '' Hi '' = ''Hi''"
  by (simp add: handler_defs input_delta_def turn_complete_def initial_def user_messages_def
      trim_def whitespace_def Let_def)

subsection \<open>Turn assembly: one notice per turn\<close>

lemma flag_tracks_tag_initial: "flag_tracks_tag (initial date)"
  by (simp add: flag_tracks_tag_def initial_def lang_match_def)

lemma deliver_turn:
  assumes "flag_tracks_tag s" and "list_all (\<lambda>ev. \<not> turnComplete (fst ev)) evs"
  shows "shown (transcripts (deliver c evs s)) =
           shown (transcripts s) @
             (if turnLanguageDetectedRef s then []
              else language_notice (lang_match (currentOutputTransRef (deliver c evs s))))
     \<and> turnLanguageDetectedRef (deliver c evs s) =
           (lang_match (currentOutputTransRef (deliver c evs s)) \<noteq> None)"
proof (cases "turnLanguageDetectedRef s")
  case True
  with assms(1) obtain n where "lang_match (currentOutputTransRef s) = Some n"
    by (auto simp: flag_tracks_tag_def)
  from deliver_detected [OF assms(2) True this, of c] True show ?thesis by simp
next
  case False
  with assms(1) have "lang_match (currentOutputTransRef s) = None"
    by (simp add: flag_tracks_tag_def)
  from deliver_fresh [OF assms(2) False this, of c] False show ?thesis by simp
qed


lemma finalize_clears_tag:
  assumes "flag_tracks_tag s"
  shows "\<not> turnLanguageDetectedRef (finalize_output date (finalize_input date s))"
    and "lang_match (currentOutputTransRef (finalize_output date (finalize_input date s))) = None"
proof -
  have e: "lang_match [] = None" by (simp add: lang_match_def)
  show "\<not> turnLanguageDetectedRef (finalize_output date (finalize_input date s))"
  proof (cases "lang_match (currentOutputTransRef s)")
    case None
    then show ?thesis using assms by (simp add: finalize_output_effect flag_tracks_tag_def)
  next
    case (Some n)
    then have "trim (currentOutputTransRef s) \<noteq> []" by (rule lang_match_nonblank)
    then show ?thesis by (simp add: finalize_output_effect)
  qed
  show "lang_match (currentOutputTransRef (finalize_output date (finalize_input date s))) = None"
  proof (cases "lang_match (currentOutputTransRef s)")
    case None
    then show ?thesis by (simp add: finalize_output_effect e)
  next
    case (Some n)
    then have "trim (currentOutputTransRef s) \<noteq> []" by (rule lang_match_nonblank)
    then show ?thesis by (simp add: finalize_output_effect e)
  qed
qed

text \<open>The handler keeps the flag in step with the accumulator, whatever the message.\<close>

lemma flag_tracks_tag_onmessage:
  assumes "flag_tracks_tag s"
  shows "flag_tracks_tag (snd (onmessage c msg now date s))"
proof -
  define body where "body = msg\<lparr>turnComplete := False\<rparr>"
  have nt: "list_all (\<lambda>ev. \<not> turnComplete (fst ev)) [(body, now, date)]"
    by (simp add: body_def)
  from deliver_turn [OF assms nt, of c]
  have b: "flag_tracks_tag (snd (onmessage c body now date s))"
    by (simp add: flag_tracks_tag_def)
  show ?thesis
  proof (cases "handle_audio c (audioData msg) now s")
    case (Inl e)
    then show ?thesis using assms by (simp add: onmessage_def)
  next
    case (Inr a)
    define s1 where "s1 = handle_input (inputTranscription msg) (handle_output (outputTranscription msg) date a)"
    have 1: "snd (onmessage c body now date s) = s1"
      by (simp add: onmessage_def body_def Inr handle_turn_complete_def s1_def)
    have 2: "snd (onmessage c msg now date s) = handle_turn_complete (turnComplete msg) date s1"
      by (simp add: onmessage_def Inr s1_def)
    from b have i: "flag_tracks_tag s1" by (simp add: 1)
    show ?thesis
    proof (cases "turnComplete msg")
      case True
      with finalize_clears_tag [OF i, of date] show ?thesis
        by (simp add: 2 handle_turn_complete_def flag_tracks_tag_def)
    next
      case False
      with i show ?thesis by (simp add: 2 handle_turn_complete_def)
    qed
  qed
qed

lemma flag_tracks_tag_deliver:
  "flag_tracks_tag s \<Longrightarrow> flag_tracks_tag (deliver c evs s)"
proof (induction evs arbitrary: s)
  case Nil
  then show ?case by simp
next
  case (Cons ev evs)
  obtain msg now date where ev: "ev = (msg, now, date)" by (cases ev)
  from Cons.IH [OF flag_tracks_tag_onmessage [OF Cons.prems, of c msg now date]]
  show ?case by (simp add: ev)
qed



subsection \<open>What the teardown leaves in place\<close>

lemma cleanupAudio_text [simp]:
  "currentInputTransRef (cleanupAudio s) = currentInputTransRef s"
  "currentOutputTransRef (cleanupAudio s) = currentOutputTransRef s"
  "transcripts (cleanupAudio s) = transcripts s"
  "saved (cleanupAudio s) = saved s"
  by (simp_all add: cleanupAudio_def Let_def)

lemma catch_connect_text [simp]:
  "currentInputTransRef (catch_connect m s) = currentInputTransRef s"
  "currentOutputTransRef (catch_connect m s) = currentOutputTransRef s"
  "transcripts (catch_connect m s) = transcripts s"
  by (simp_all add: catch_connect_def)

lemma new_context_text [simp]:
  "currentInputTransRef (new_context r s) = currentInputTransRef s"
  "currentOutputTransRef (new_context r s) = currentOutputTransRef s"
  "transcripts (new_context r s) = transcripts s"
  by (simp_all add: new_context_def)

lemma push_stream_text [simp]:
  "currentInputTransRef (push_stream st s) = currentInputTransRef s"
  "currentOutputTransRef (push_stream st s) = currentOutputTransRef s"
  "transcripts (push_stream st s) = transcripts s"
  by (simp_all add: push_stream_def)

lemma system_audio_text [simp]:
  "currentInputTransRef (system_audio r s) = currentInputTransRef s"
  "currentOutputTransRef (system_audio r s) = currentOutputTransRef s"
  "transcripts (system_audio r s) = transcripts s"
  by (simp_all add: system_audio_def Let_def split: display_result.splits)

lemma connect_text [simp]:
  "currentInputTransRef (connect env s) = currentInputTransRef s"
  "currentOutputTransRef (connect env s) = currentOutputTransRef s"
  "transcripts (connect env s) = transcripts s"
  by (simp_all add: connect_def Let_def split: option.splits)

lemma onopen_text [simp]:
  "currentInputTransRef (onopen c date s) = currentInputTransRef s"
  "currentOutputTransRef (onopen c date s) = currentOutputTransRef s"
  by (simp_all add: onopen_def)

text \<open>C10. The teardown sets the playback cursor to 0, empties the live preview, zeroes
  the volume meter and clears the language flag; the two transcript accumulators, the log
  and the saved transcripts are as before, so an unfinished turn is neither finalized nor
  dropped: its text is still in the accumulators after the next \<open>connect\<close> and \<open>onopen\<close>,
  and the next input delta is appended to it.\<close>

theorem cleanup_keeps_accumulators:
  "nextStartTimeRef (cleanupAudio s) = 0
   \<and> streamingInput (cleanupAudio s) = []
   \<and> volume (cleanupAudio s) = 0
   \<and> \<not> turnLanguageDetectedRef (cleanupAudio s)
   \<and> currentInputTransRef (cleanupAudio s) = currentInputTransRef s
   \<and> currentOutputTransRef (cleanupAudio s) = currentOutputTransRef s
   \<and> transcripts (cleanupAudio s) = transcripts s
   \<and> saved (cleanupAudio s) = saved s
   \<and> currentInputTransRef (onopen c date (connect env (cleanupAudio s))) = currentInputTransRef s
   \<and> currentOutputTransRef (onopen c date (connect env (cleanupAudio s))) = currentOutputTransRef s
   \<and> currentInputTransRef
        (handle_input (Some (Some t)) (onopen c date (connect env (cleanupAudio s))))
      = currentInputTransRef s @ t"
  by (simp add: js_append_def) (simp add: cleanupAudio_def Let_def)

subsection \<open>Mode selection\<close>

lemma wordings_distinct:
  "translator_wording \<noteq> diarization_wording" "translator_wording \<noteq> assistant_wording"
  "diarization_wording \<noteq> assistant_wording"
  by (simp_all add: translator_wording_def diarization_wording_def assistant_wording_def)

lemma mode_wording_inj: "mode_wording m = mode_wording m' \<Longrightarrow> m = m'"
  using wordings_distinct by (cases m; cases m') auto

lemma mode_notice_inj: "mode_notice m = mode_notice m' \<Longrightarrow> m = m'"
  by (cases m; cases m') auto

lemma build_instruction_mode:
  "build_instruction t d = baseInstruction @ mode_wording (selected_mode t d)"
  by (simp add: build_instruction_def selected_mode_def)

lemma connected_text_mode:
  "connected_text t d = mode_notice (selected_mode t d)"
  by (simp add: connected_text_def selected_mode_def)

lemma connect_opens:
  assumes "failure env = None"
  shows "\<exists>c. sessions (platform (connect env s)) = sessions (platform s) @ [c]
     \<and> systemInstruction c = build_instruction (translationEnabled s) (diarizationEnabled s)
     \<and> c_translationEnabled c = translationEnabled s
     \<and> c_diarizationEnabled c = diarizationEnabled s"
  using assms
  by (simp add: connect_def thrown_def Let_def new_context_def push_stream_def system_audio_def
      split: display_result.splits)


text \<open>C9. When \<open>connect\<close> runs to its end, the session it opens carries the base
  instruction followed by the wording of exactly one mode, the mode selected from the two
  flags with translation first; the message that \<open>onopen\<close> appends for this session is a
  system message whose text announces that same mode and no other.\<close>

theorem mode_selection:
  assumes "failure env = None"
  shows "let c = last (sessions (platform (connect env s)));
             m = selected_mode (translationEnabled s) (diarizationEnabled s);
             notice = last (transcripts (onopen c date s'))
         in sessions (platform (connect env s)) = sessions (platform s) @ [c]
          \<and> systemInstruction c = baseInstruction @ mode_wording m
          \<and> {m'. systemInstruction c = baseInstruction @ mode_wording m'} = {m}
          \<and> selected_mode True (diarizationEnabled s) = Translator
          \<and> role notice = System
          \<and> msg_text notice = mode_notice m
          \<and> {m'. msg_text notice = mode_notice m'} = {m}"
proof -
  from connect_opens [OF assms, of s] obtain c where
    c: "sessions (platform (connect env s)) = sessions (platform s) @ [c]"
      "systemInstruction c = build_instruction (translationEnabled s) (diarizationEnabled s)"
      "c_translationEnabled c = translationEnabled s" "c_diarizationEnabled c = diarizationEnabled s"
    by blast
  let ?m = "selected_mode (translationEnabled s) (diarizationEnabled s)"
  have l: "last (sessions (platform (connect env s))) = c"
    by (simp add: c(1))
  have i: "systemInstruction c = baseInstruction @ mode_wording ?m"
    by (simp add: c build_instruction_mode)
  have n: "msg_text (last (transcripts (onopen c date s'))) = mode_notice ?m"
    by (simp add: onopen_def c connected_text_mode)
  have r: "role (last (transcripts (onopen c date s'))) = System"
    by (simp add: onopen_def)
  have si: "{m'. systemInstruction c = baseInstruction @ mode_wording m'} = {?m}"
    unfolding i using mode_wording_inj by auto
  have sn: "{m'. msg_text (last (transcripts (onopen c date s'))) = mode_notice m'} = {?m}"
    unfolding n using mode_notice_inj by auto
  have p: "selected_mode True (diarizationEnabled s) = Translator"
    by (simp add: selected_mode_def)
  show ?thesis
    unfolding Let_def l
    by (intro conjI c(1) i si p r n sn)
qed

text \<open>Translation and diarization both requested: the translator wording and notice.\<close>

theorem mode_selection_witness:
  "systemInstruction (last (sessions (platform
       (connect (succeeds Cancelled) ((initial 0)\<lparr>translationEnabled := True\<rparr>)))))
     = baseInstruction @ translator_wording
   \<and> msg_text (last (transcripts (onopen
        (last (sessions (platform
           (connect (succeeds Cancelled) ((initial 0)\<lparr>translationEnabled := True\<rparr>))))) 1
        (connect (succeeds Cancelled) ((initial 0)\<lparr>translationEnabled := True\<rparr>)))))
     = ''Translator Mode Active.''
   \<and> diarizationEnabled ((initial 0)\<lparr>translationEnabled := True\<rparr>)"
proof -
  have f: "failure (succeeds Cancelled) = None"
    by (simp add: succeeds_def)
  have m: "selected_mode (translationEnabled ((initial 0)\<lparr>translationEnabled := True\<rparr>))
      (diarizationEnabled ((initial 0)\<lparr>translationEnabled := True\<rparr>)) = Translator"
    by (simp add: selected_mode_def)
  have d: "diarizationEnabled ((initial 0)\<lparr>translationEnabled := True\<rparr>)"
    by (simp add: initial_def)
  from mode_selection [OF f, of "(initial 0)\<lparr>translationEnabled := True\<rparr>" 1
      "connect (succeeds Cancelled) ((initial 0)\<lparr>translationEnabled := True\<rparr>)"]
  show ?thesis
    unfolding Let_def m using d by simp
qed

subsection \<open>The codec and the transport encoding\<close>

lemma length_b64chars: "length b64chars = 64"
  by (simp add: b64chars_def)

lemma distinct_b64chars: "distinct b64chars"
  by (simp add: b64chars_def)

lemma pad_not_b64: "CHR ''='' \<notin> set b64chars"
  by (simp add: b64chars_def)

lemma b64char_not_pad [simp]: "b64char n \<noteq> CHR ''=''"
proof -
  have "b64char n \<in> set b64chars"
    unfolding b64char_def by (rule nth_mem) (simp add: length_b64chars)
  with pad_not_b64 show ?thesis by auto
qed

lemma b64index_b64char [simp]: "b64index (b64char n) = Some (n mod 64)"
proof -
  have "map_of (zip b64chars [0..<64]) (b64chars ! (n mod 64)) = Some ([0..<64] ! (n mod 64))"
    by (rule map_of_zip_nth) (simp_all add: length_b64chars distinct_b64chars)
  then show ?thesis by (simp add: b64index_def b64char_def)
qed

lemma of_char_less: "(of_char c :: nat) < 256"
proof -
  have "(of_char c :: nat) mod 256 < 256" by simp
  then show ?thesis by (simp only: of_char_mod_256)
qed

lemma sextet_split_high:
  fixes x y :: nat
  assumes "y < 256"
  shows "(x mod 4 * 16 + y div 16) div 16 = x mod 4" "(x mod 4 * 16 + y div 16) mod 16 = y div 16"
  using assms by (simp_all add: less_mult_imp_div_less)

lemma sextet_split_low:
  fixes y z :: nat
  assumes "z < 256"
  shows "(y mod 16 * 4 + z div 64) div 4 = y mod 16" "(y mod 16 * 4 + z div 64) mod 4 = z div 64"
  using assms by (simp_all add: less_mult_imp_div_less)

lemma sextet_bounds:
  fixes x y z :: nat
  assumes "x < 256" "y < 256" "z < 256"
  shows "x div 4 < 64" "x mod 4 * 16 + y div 16 < 64" "y mod 16 * 4 + z div 64 < 64"
    "x mod 4 * 16 < 64" "y mod 16 * 4 < 64"
  using assms by auto

lemma atob_group:
  "atob (b64char s1 # b64char s2 # b64char s3 # b64char s4 # rest) =
     (case atob rest of
        Inl e \<Rightarrow> Inl e
      | Inr bs \<Rightarrow>
          Inr (char_of (s1 mod 64 * 4 + s2 mod 64 div 16) #
               char_of (s2 mod 64 mod 16 * 16 + s3 mod 64 div 4) #
               char_of (s3 mod 64 mod 4 * 64 + s4 mod 64) # bs))"
  by (simp split: sum.splits)

lemma atob_last_two:
  "atob [b64char s1, b64char s2, b64char s3, CHR ''=''] =
     Inr [char_of (s1 mod 64 * 4 + s2 mod 64 div 16),
          char_of (s2 mod 64 mod 16 * 16 + s3 mod 64 div 4)]"
  by simp

lemma atob_last_one:
  "atob [b64char s1, b64char s2, CHR ''='', CHR ''=''] =
     Inr [char_of (s1 mod 64 * 4 + s2 mod 64 div 16)]"
  by simp

lemma atob_btoa: "atob (btoa cs) = Inr cs"
proof (induction cs rule: btoa.induct)
  case 1
  show ?case by simp
next
  case (2 a)
  define x :: nat where "x = of_char a"
  have x: "x < 256" unfolding x_def by (rule of_char_less)
  define s1 s2 where "s1 = x div 4" and "s2 = x mod 4 * 16"
  have e: "btoa [a] = [b64char s1, b64char s2, CHR ''='', CHR ''='']"
    by (simp add: Let_def s1_def s2_def x_def)
  have m: "s1 mod 64 = s1" "s2 mod 64 = s2"
    using sextet_bounds [OF x x x] by (simp_all add: s1_def s2_def)
  have "s1 * 4 + s2 div 16 = x"
    by (simp add: s1_def s2_def)
  then have "char_of (s1 mod 64 * 4 + s2 mod 64 div 16) = a"
    by (simp only: m) (simp add: x_def)
  then show ?case
    by (simp only: e atob_last_one)
next
  case (3 a b)
  define x y :: nat where "x = of_char a" and "y = of_char b"
  have x: "x < 256" and y: "y < 256" unfolding x_def y_def by (rule of_char_less)+
  define s1 s2 s3 where "s1 = x div 4" and "s2 = x mod 4 * 16 + y div 16" and "s3 = y mod 16 * 4"
  have e: "btoa [a, b] = [b64char s1, b64char s2, b64char s3, CHR ''='']"
    by (simp add: Let_def s1_def s2_def s3_def x_def y_def)
  have m: "s1 mod 64 = s1" "s2 mod 64 = s2" "s3 mod 64 = s3"
    using sextet_bounds [OF x y y] by (simp_all add: s1_def s2_def s3_def)
  have "s1 * 4 + s2 div 16 = x"
    unfolding s1_def s2_def sextet_split_high [OF y] by simp
  moreover have "s2 mod 16 * 16 + s3 div 4 = y"
    unfolding s2_def s3_def sextet_split_high [OF y] by simp
  ultimately have "char_of (s1 mod 64 * 4 + s2 mod 64 div 16) = a"
    and "char_of (s2 mod 64 mod 16 * 16 + s3 mod 64 div 4) = b"
    by (simp_all only: m) (simp_all add: x_def y_def)
  then show ?case
    by (simp only: e atob_last_two)
next
  case (4 a b c rest)
  define x y z :: nat where "x = of_char a" and "y = of_char b" and "z = of_char c"
  have x: "x < 256" and y: "y < 256" and z: "z < 256"
    unfolding x_def y_def z_def by (rule of_char_less)+
  define s1 s2 s3 s4 where "s1 = x div 4" and "s2 = x mod 4 * 16 + y div 16"
    and "s3 = y mod 16 * 4 + z div 64" and "s4 = z mod 64"
  have e: "btoa (a # b # c # rest) =
      b64char s1 # b64char s2 # b64char s3 # b64char s4 # btoa rest"
    by (simp add: Let_def s1_def s2_def s3_def s4_def x_def y_def z_def)
  have m: "s1 mod 64 = s1" "s2 mod 64 = s2" "s3 mod 64 = s3" "s4 mod 64 = s4"
    using sextet_bounds [OF x y z] by (simp_all add: s1_def s2_def s3_def s4_def)
  have "s1 * 4 + s2 div 16 = x"
    unfolding s1_def s2_def sextet_split_high [OF y] by simp
  moreover have "s2 mod 16 * 16 + s3 div 4 = y"
    unfolding s2_def s3_def sextet_split_high [OF y] sextet_split_low [OF z] by simp
  moreover have "s3 mod 4 * 64 + s4 = z"
    unfolding s3_def s4_def sextet_split_low [OF z] by simp
  ultimately have "char_of (s1 mod 64 * 4 + s2 mod 64 div 16) = a"
    and "char_of (s2 mod 64 mod 16 * 16 + s3 mod 64 div 4) = b"
    and "char_of (s3 mod 64 mod 4 * 64 + s4 mod 64) = c"
    by (simp_all only: m) (simp_all add: x_def y_def z_def)
  then show ?case
    by (simp only: e atob_group "4.IH" sum.case)
qed

lemma binary_string:
  "foldl (\<lambda>binary b. binary @ [fromCharCode b]) acc uint8 = acc @ map fromCharCode uint8"
  by (induction uint8 arbitrary: acc) simp_all

lemma charCodeAt_fromCharCode: "charCodeAt (fromCharCode b) = b"
proof -
  have "unat b < 2 ^ LENGTH(8)" by (rule unsigned_less)
  then have "unat b mod 256 = unat b" by simp
  then have "(of_char (char_of (unat b)) :: nat) = unat b"
    by (simp only: of_char_of)
  then have "of_nat (of_char (char_of (unat b)) :: nat) = (of_nat (unat b) :: 8 word)"
    by simp
  then show ?thesis
    by (simp add: charCodeAt_def fromCharCode_def of_nat_of_char del: of_char_of)
qed

lemma wire_roundtrip: "base64ToArrayBuffer (frameToWire b) = Inr b"
  by (simp add: base64ToArrayBuffer_def frameToWire_def binary_string atob_btoa
      charCodeAt_fromCharCode comp_def)


lemma word_cat_bytes: "word_cat (ucast (drop_bit 8 w) :: byte) (ucast w :: byte) = (w :: int16)"
  by (rule bit_word_eqI) (auto simp: bit_simps)

lemma int16_view_uint8_view: "int16_view (uint8_view ws) = ws"
  by (induction ws) (simp_all add: word_cat_bytes)

lemma length_uint8_view: "length (uint8_view ws) = 2 * length ws"
  by (induction ws) simp_all

lemma Int16Array_uint8_view: "Int16Array (uint8_view ws) = Inr ws"
  by (simp add: Int16Array_def length_uint8_view int16_view_uint8_view)

lemma sint_int16:
  assumes "- 32768 \<le> k" "k \<le> 32767"
  shows "sint (word_of_int k :: int16) = k"
proof -
  have "signed_take_bit (LENGTH(16) - 1) k = k"
    by (rule signed_take_bit_int_eq_self) (use assms in simp_all)
  then show ?thesis by (simp only: sint_sbintrunc')
qed

lemma clip_close:
  fixes f :: int and v :: real
  assumes "\<bar>real_of_int f - v\<bar> < 1" "- 32768 \<le> v" "v \<le> 32768"
  shows "\<bar>real_of_int (max (- 32768) (min 32767 f)) - v\<bar> \<le> 1"
proof -
  have "real_of_int f < 32769" "- 32769 < real_of_int f" using assms by linarith+
  then have b: "f \<le> 32768" "- 32768 \<le> f" by linarith+
  show ?thesis
  proof (cases "f = 32768")
    case True
    then have "32767 < v" using assms(1) by simp
    then show ?thesis using True assms(3) by simp
  next
    case False
    with b have "max (- 32768) (min 32767 f) = f" by simp
    then show ?thesis using assms(1) by simp
  qed
qed

lemma quantise_near: "\<bar>real_of_int (quantise q v) - v\<bar> < 1"
proof -
  have c: "\<bar>real_of_int \<lceil>v\<rceil> - v\<bar> < 1" by linarith
  have f: "\<bar>real_of_int \<lfloor>v\<rfloor> - v\<bar> < 1" by linarith
  have r: "\<bar>real_of_int \<lfloor>v + 1 / 2\<rfloor> - v\<bar> < 1" by linarith
  show ?thesis
  proof (cases q)
    case Truncate
    then have "quantise q v = \<lceil>v\<rceil> \<or> quantise q v = \<lfloor>v\<rfloor>"
      by (simp add: quantise_def)
    then show ?thesis using c f by auto
  next
    case Round
    then have "quantise q v = \<lfloor>v + 1 / 2\<rfloor>"
      by (simp add: quantise_def)
    then show ?thesis using r by simp
  qed
qed

lemma quantise_close:
  assumes "- 32768 \<le> v" "v \<le> 32768"
  shows "\<bar>real_of_int (max (- 32768) (min 32767 (quantise q v))) - v\<bar> \<le> 1"
  using quantise_near assms by (rule clip_close)

lemma clamp_sample_range: "- 1 \<le> clamp_sample x \<and> clamp_sample x \<le> 1"
  by (simp add: clamp_sample_def)

lemma sample_roundtrip:
  "\<bar>real_of_int (sint (encode_sample q x)) / 32768 - clamp_sample x\<bar> \<le> 1 / 32768"
proof -
  define v where "v = clamp_sample x * 32768"
  define k where "k = max (- 32768) (min 32767 (quantise q v))"
  have r: "- 32768 \<le> v" "v \<le> 32768"
    using clamp_sample_range [of x] by (simp_all add: v_def)
  have kr: "- 32768 \<le> k" "k \<le> 32767" by (simp_all add: k_def)
  have "sint (encode_sample q x) = k"
    unfolding encode_sample_def v_def [symmetric] k_def [symmetric] using kr by (rule sint_int16)
  moreover have "\<bar>real_of_int k - v\<bar> \<le> 1"
    unfolding k_def using r by (rule quantise_close)
  ultimately have "\<bar>real_of_int (sint (encode_sample q x)) - clamp_sample x * 32768\<bar> \<le> 1"
    by (simp add: v_def)
  then show ?thesis by (simp add: field_simps abs_le_iff)
qed

lemma decode_encode:
  "decode (encode q xs) = Inr (map (\<lambda>x. real_of_int (sint (encode_sample q x)) / 32768) xs)"
  by (simp add: decode_def encode_def Int16Array_uint8_view to_float32_def float32ToInt16_def comp_def)

text \<open>C8. Decoding the transport encoding of any byte sequence gives the bytes back,
  and decoding the encoding of any sample sequence gives, sample by sample, a value within
  one step of 1/32768 of the sample clamped to the interval from \<open>-1\<close> to \<open>1\<close>, whether
  the encoder truncates or rounds.\<close>

theorem codec_roundtrip:
  "base64ToArrayBuffer (frameToWire b) = Inr b
   \<and> (\<exists>ys. decode (encode q xs) = Inr ys
         \<and> list_all2 (\<lambda>x y. \<bar>y - clamp_sample x\<bar> \<le> 1 / 32768) xs ys)"
proof -
  have "list_all2 (\<lambda>x y. \<bar>real_of_int (sint (encode_sample q y)) / 32768 - clamp_sample x\<bar>
            \<le> 1 / 32768) xs xs"
    by (rule list.rel_refl) (rule sample_roundtrip)
  then have "list_all2 (\<lambda>x y. \<bar>y - clamp_sample x\<bar> \<le> 1 / 32768) xs
          (map (\<lambda>x. real_of_int (sint (encode_sample q x)) / 32768) xs)"
    by (simp only: list_all2_map2)
  then show ?thesis
    using wire_roundtrip [of b] decode_encode [of q xs] by blast
qed


lemma int16_view_nth:
  "even (length bs) \<Longrightarrow>
     int16_view bs = map (\<lambda>i. word_cat (bs ! (2 * i + 1)) (bs ! (2 * i))) [0..<length bs div 2]"
proof (induction bs rule: int16_view.induct)
  case (1 lo hi rest)
  then have "int16_view rest =
      map (\<lambda>i. word_cat (rest ! (2 * i + 1)) (rest ! (2 * i))) [0..<length rest div 2]"
    by simp
  then show ?case
    by (simp add: map_upt_Suc del: upt_Suc)
qed simp_all

lemma decode_samples:
  "decode bs =
     (if odd (length bs) then Inl RangeError
      else Inr (map (\<lambda>i. real_of_int (sint (word_cat (bs ! (2 * i + 1)) (bs ! (2 * i)) :: int16)) / 32768)
                  [0..<length bs div 2]))"
  by (simp add: decode_def Int16Array_def to_float32_def int16_view_nth comp_def)

lemma onmessage_odd_frame:
  assumes "audioData msg = Some d" and "d \<noteq> []"
    and "base64ToArrayBuffer d = Inr bufferData" and "odd (length bufferData)"
  shows "onmessage c msg now date s = (Some RangeError, s)"
  using assms by (simp add: onmessage_def handle_audio_def decode_def Int16Array_def)

lemma b64index_values:
  "b64index CHR ''A'' = Some 0" "b64index CHR ''E'' = Some 4" "b64index CHR ''C'' = Some 2"
  by (simp_all add: b64index_def b64chars_def upt_rec)

lemma odd_frame_bytes: "base64ToArrayBuffer ''AAEC'' = Inr [0, 1, 2]"
  by code_simp

lemma sample_ints:
  "sint (word_cat (128 :: byte) (0 :: byte) :: int16) = - 32768"
  "sint (word_cat (127 :: byte) (255 :: byte) :: int16) = 32767"
  by code_simp+

lemma sample_values:
  "(signed (word_cat (128 :: byte) (0 :: byte) :: int16) :: real) = - 32768"
  "(signed (word_cat (127 :: byte) (255 :: byte) :: int16) :: real) = 32767"
  using arg_cong [OF sample_ints(1), of real_of_int] arg_cong [OF sample_ints(2), of real_of_int]
  by simp_all

text \<open>C7 (as amended). \<open>decode\<close> raises \<open>RangeError\<close> exactly on a byte sequence of odd
  length, and otherwise returns each little-endian 16-bit sample divided by 32768. A message
  whose audio decodes to an odd number of bytes leaves the handler with that exception and
  the state as it was before the message: nothing is scheduled, nothing is written to the
  console, no teardown runs, and the other parts of the same message are not processed.\<close>

theorem malformed_frame_dropped:
  assumes "audioData msg = Some d" and "d \<noteq> []"
    and "base64ToArrayBuffer d = Inr bufferData" and "odd (length bufferData)"
  shows "decode bs =
     (if odd (length bs) then Inl RangeError
      else Inr (map (\<lambda>i. real_of_int (sint (word_cat (bs ! (2 * i + 1)) (bs ! (2 * i)) :: int16)) / 32768)
                  [0..<length bs div 2]))
   \<and> decode bufferData = Inl RangeError
   \<and> onmessage c msg now date s = (Some RangeError, s)"
  using decode_samples [of bs] decode_samples [of bufferData] onmessage_odd_frame [OF assms] assms(4)
  by simp

theorem malformed_frame_dropped_witness:
  "base64ToArrayBuffer ''AAEC'' = Inr [0, 1, 2]
   \<and> decode [0, 1, 2] = Inl RangeError
   \<and> decode [0, 128, 255, 127] = Inr [- 1, 32767 / 32768]
   \<and> onmessage session0 odd_frame 0 5 live0 = (Some RangeError, live0)"
  using malformed_frame_dropped [of odd_frame "''AAEC''" "[0, 1, 2]" "[0, 128, 255, 127]" session0 0 5 live0]
    odd_frame_bytes
  by (simp add: odd_frame_def upt_rec sample_values)

text \<open>The handler writes nothing to the console for the malformed frame, and the input
  delta and the end of turn that came with it are lost.\<close>

theorem malformed_frame_not_logged:
  "fst (onmessage session0 odd_frame 0 5 live0) = Some RangeError
   \<and> console (snd (onmessage session0 odd_frame 0 5 live0)) = console live0
   \<and> currentInputTransRef (snd (onmessage session0 odd_frame 0 5 live0)) = currentInputTransRef live0
   \<and> transcripts (snd (onmessage session0 odd_frame 0 5 live0)) = transcripts live0"
  using onmessage_odd_frame [of odd_frame "''AAEC''" "[0, 1, 2]" session0 0 5 live0] odd_frame_bytes
  by (simp add: odd_frame_def)

subsection \<open>Starting, stopping and the resources held\<close>

lemmas connect_defs = connect_def thrown_def new_context_def push_stream_def system_audio_def

lemma connect_ok_state:
  assumes "failure env = None"
  shows "error (connect env s) = None"
    and "isActive (connect env s) = isActive s"
    and "transcripts (connect env s) = transcripts s"
    and "streamingInput (connect env s) = streamingInput s"
    and "console (connect env s) = console s @ display_warning (useSystemAudio s) (display env)"
  using assms
  by (simp_all add: connect_defs display_warning_def Let_def split: display_result.splits)

lemma connect_ok_refs:
  assumes "failure env = None"
  shows "inputContextRef (connect env s) = Some (length (contexts (platform s)))"
    and "audioContextRef (connect env s) = Some (Suc (length (contexts (platform s))))"
    and "processorRef (connect env s) = Some (length (processors (platform s)))"
    and "sessionRef (connect env s) = Some (length (sessions (platform s)))"
    and "sourcesRef (connect env s) = sourcesRef s"
    and "mediaStreamsRef (connect env s) =
           mediaStreamsRef s @
             [length (streams (platform s)) ..<
                length (streams (platform s)) + 1 + length (display_streams (useSystemAudio s) (display env))]"
  using assms
  by (simp_all add: connect_defs display_streams_def Let_def split: display_result.splits)

lemma connect_ok_platform:
  assumes "failure env = None"
  shows "contexts (platform (connect env s)) =
           contexts (platform s) @
             [\<lparr> sampleRate = 16000, ctx_closed = False \<rparr>, \<lparr> sampleRate = 24000, ctx_closed = False \<rparr>]"
    and "streams (platform (connect env s)) =
           streams (platform s) @ microphone_stream # display_streams (useSystemAudio s) (display env)"
    and "processors (platform (connect env s)) =
           processors (platform s) @ [\<lparr> proc_connected = True, proc_handler = False \<rparr>]"
    and "sessions (platform (connect env s)) =
           sessions (platform s) @
             [\<lparr> systemInstruction = build_instruction (translationEnabled s) (diarizationEnabled s),
                c_outCtx = Suc (length (contexts (platform s))),
                c_processor = length (processors (platform s)),
                c_translationEnabled = translationEnabled s,
                c_diarizationEnabled = diarizationEnabled s,
                sess_closed = False \<rparr>]"
    and "sources (platform (connect env s)) = sources (platform s)"
  using assms
  by (simp_all add: connect_defs display_streams_def microphone_stream_def Let_def
      split: display_result.splits)


lemma onopen_state:
  "isActive (onopen c date s)" "error (onopen c date s) = error s"
  "transcripts (onopen c date s) = transcripts s @
     [\<lparr> msg_id = IdSysStart, role = System,
        msg_text = connected_text (c_translationEnabled c) (c_diarizationEnabled c),
        timestamp = date \<rparr>]"
  by (simp_all add: onopen_def)

text \<open>C6 (as amended). The microphone is granted, the system audio was requested, and
  the user cancels the request or shares a stream without an audio track: \<open>connect\<close> runs
  to its end with no error and no teardown (both contexts open, the microphone track live,
  the processor connected, the session open and referenced), the only audio track is the
  microphone's, a warning is written to the console, the log is untouched, and \<open>onopen\<close>
  makes the session active.\<close>

theorem degraded_input_proceeds:
  assumes "failure env = None" and "useSystemAudio s"
    and "display env = Cancelled \<or> display env = Shared False"
  shows "let s' = connect env s; c = last (sessions (platform s'))
         in error s' = None
          \<and> transcripts s' = transcripts s
          \<and> console s' = console s @
                [(Warn, if display env = Cancelled
                        then ''System audio selection cancelled or failed''
                        else ''User did not share system audio.'')]
          \<and> contexts (platform s') = contexts (platform s) @
                [\<lparr> sampleRate = 16000, ctx_closed = False \<rparr>,
                 \<lparr> sampleRate = 24000, ctx_closed = False \<rparr>]
          \<and> streams (platform s') = streams (platform s) @
                [\<lparr> kind = AudioKind, live = True \<rparr>] #
                (if display env = Cancelled then [] else [[\<lparr> kind = VideoKind, live = True \<rparr>]])
          \<and> processors (platform s') = processors (platform s) @
                [\<lparr> proc_connected = True, proc_handler = False \<rparr>]
          \<and> sessionRef s' = Some (length (sessions (platform s)))
          \<and> length (sessions (platform s')) = Suc (length (sessions (platform s)))
          \<and> \<not> sess_closed c
          \<and> isActive (onopen c date s')
          \<and> error (onopen c date s') = None"
  using assms(2,3)
  by (auto simp: Let_def connect_ok_state [OF assms(1)] connect_ok_refs [OF assms(1)]
      connect_ok_platform [OF assms(1)] onopen_state display_warning_def display_streams_def
      microphone_stream_def)

text \<open>A display stream without an audio track.\<close>

theorem degraded_input_proceeds_witness:
  "error (connect (succeeds (Shared False)) ((initial 0)\<lparr>useSystemAudio := True\<rparr>)) = None
   \<and> console (connect (succeeds (Shared False)) ((initial 0)\<lparr>useSystemAudio := True\<rparr>)) =
       [(Warn, ''User did not share system audio.'')]
   \<and> streams (platform (connect (succeeds (Shared False)) ((initial 0)\<lparr>useSystemAudio := True\<rparr>))) =
       [[\<lparr> kind = AudioKind, live = True \<rparr>], [\<lparr> kind = VideoKind, live = True \<rparr>]]
   \<and> sessionRef (connect (succeeds (Shared False)) ((initial 0)\<lparr>useSystemAudio := True\<rparr>)) = Some 0"
proof -
  have f: "failure (succeeds (Shared False)) = None" "display (succeeds (Shared False)) = Shared False"
    by (simp_all add: succeeds_def)
  have u: "useSystemAudio ((initial 0)\<lparr>useSystemAudio := True\<rparr>)" by simp
  have i: "console ((initial 0)\<lparr>useSystemAudio := True\<rparr>) = []"
    "streams (platform ((initial 0)\<lparr>useSystemAudio := True\<rparr>)) = []"
    "sessions (platform ((initial 0)\<lparr>useSystemAudio := True\<rparr>)) = []"
    by (simp_all add: initial_def)
  from degraded_input_proceeds [OF f(1) u, of 1] f(2)
  show ?thesis
    unfolding Let_def i by simp
qed

text \<open>When the user cancels, nothing the user sees reports it: no error, no message in
  the log before or after \<open>onopen\<close>, only the console warning.\<close>

theorem declined_without_visible_notice:
  "error (connect (succeeds Cancelled) ((initial 0)\<lparr>useSystemAudio := True\<rparr>)) = None
   \<and> transcripts (connect (succeeds Cancelled) ((initial 0)\<lparr>useSystemAudio := True\<rparr>)) =
       transcripts (initial 0)
   \<and> streamingInput (connect (succeeds Cancelled) ((initial 0)\<lparr>useSystemAudio := True\<rparr>)) = []
   \<and> console (connect (succeeds Cancelled) ((initial 0)\<lparr>useSystemAudio := True\<rparr>)) =
       [(Warn, ''System audio selection cancelled or failed'')]
   \<and> shown (transcripts (onopen session0 1
         (connect (succeeds Cancelled) ((initial 0)\<lparr>useSystemAudio := True\<rparr>)))) =
       [(System, ''EBURON Live Core initialized. Configure audio and connect.''),
        (System, ''Secure Link Established. Speaker ID Active.'')]"
proof -
  have f: "failure (succeeds Cancelled) = None" "display (succeeds Cancelled) = Cancelled"
    by (simp_all add: succeeds_def)
  show ?thesis
    by (simp add: connect_ok_state [OF f(1)] onopen_state f(2) display_warning_def shown_def
        session0_def connected_text_def initial_def)
qed

text \<open>A second click while the first session is still connecting (\<open>isActive\<close> is
  false until \<open>onopen\<close>) runs \<open>connect\<close> again: new contexts and a second session replace the
  references to the first.\<close>

theorem second_connect_not_rejected:
  "\<not> isActive (onClick (succeeds Cancelled) (initial 0))
   \<and> sessionRef (onClick (succeeds Cancelled) (initial 0)) = Some 0
   \<and> inputContextRef (onClick (succeeds Cancelled) (initial 0)) = Some 0
   \<and> sessionRef (onClick (succeeds Cancelled) (onClick (succeeds Cancelled) (initial 0))) = Some 1
   \<and> inputContextRef (onClick (succeeds Cancelled) (onClick (succeeds Cancelled) (initial 0))) = Some 2
   \<and> length (sessions (platform (onClick (succeeds Cancelled) (onClick (succeeds Cancelled) (initial 0))))) = 2"
proof -
  have f: "failure (succeeds Cancelled) = None"
    by (simp add: succeeds_def)
  have i: "\<not> isActive (initial 0)" "sessions (platform (initial 0)) = []"
    "contexts (platform (initial 0)) = []"
    by (simp_all add: initial_def)
  have c1: "onClick (succeeds Cancelled) (initial 0) = connect (succeeds Cancelled) (initial 0)"
    by (simp add: onClick_def i)
  have a1: "\<not> isActive (connect (succeeds Cancelled) (initial 0))"
    by (simp add: connect_ok_state [OF f] i)
  have c2: "onClick (succeeds Cancelled) (connect (succeeds Cancelled) (initial 0)) =
      connect (succeeds Cancelled) (connect (succeeds Cancelled) (initial 0))"
    by (simp add: onClick_def a1)
  show ?thesis
    unfolding c1 c2
    by (simp add: connect_ok_state [OF f] connect_ok_refs [OF f] connect_ok_platform [OF f] i)
qed


lemma stop_tracks_frame [simp]:
  "contexts (stop_tracks p i) = contexts p" "processors (stop_tracks p i) = processors p"
  "sessions (stop_tracks p i) = sessions p" "sources (stop_tracks p i) = sources p"
  "length (streams (stop_tracks p i)) = length (streams p)"
  by (simp_all add: stop_tracks_def)

lemma stop_source_frame [simp]:
  "contexts (stop_source p i) = contexts p" "processors (stop_source p i) = processors p"
  "sessions (stop_source p i) = sessions p" "streams (stop_source p i) = streams p"
  "length (sources (stop_source p i)) = length (sources p)"
  by (simp_all add: stop_source_def)

lemma foldl_stop_tracks_frame [simp]:
  "contexts (foldl stop_tracks p is) = contexts p" "processors (foldl stop_tracks p is) = processors p"
  "sessions (foldl stop_tracks p is) = sessions p" "sources (foldl stop_tracks p is) = sources p"
  "length (streams (foldl stop_tracks p is)) = length (streams p)"
  by (induction "is" arbitrary: p) simp_all

lemma foldl_stop_source_frame [simp]:
  "contexts (foldl stop_source p is) = contexts p" "processors (foldl stop_source p is) = processors p"
  "sessions (foldl stop_source p is) = sessions p" "streams (foldl stop_source p is) = streams p"
  "length (sources (foldl stop_source p is)) = length (sources p)"
  by (induction "is" arbitrary: p) simp_all

lemma on_ref_disconnect_frame [simp]:
  "contexts (on_ref disconnect r p) = contexts p" "streams (on_ref disconnect r p) = streams p"
  "sessions (on_ref disconnect r p) = sessions p" "sources (on_ref disconnect r p) = sources p"
  "length (processors (on_ref disconnect r p)) = length (processors p)"
  by (simp_all add: on_ref_def disconnect_def split: option.splits)

lemma on_ref_close_context_frame [simp]:
  "processors (on_ref close_context r p) = processors p" "streams (on_ref close_context r p) = streams p"
  "sessions (on_ref close_context r p) = sessions p" "sources (on_ref close_context r p) = sources p"
  "length (contexts (on_ref close_context r p)) = length (contexts p)"
  by (simp_all add: on_ref_def close_context_def split: option.splits)

lemma on_ref_close_session_frame [simp]:
  "processors (on_ref close_session r p) = processors p" "streams (on_ref close_session r p) = streams p"
  "contexts (on_ref close_session r p) = contexts p" "sources (on_ref close_session r p) = sources p"
  "length (sessions (on_ref close_session r p)) = length (sessions p)"
  by (simp_all add: on_ref_def close_session_def split: option.splits)

lemma cleanupAudio_state:
  "transcripts (cleanupAudio s) = transcripts s"
  "error (cleanupAudio s) = error s"
  "\<not> isActive (cleanupAudio s)"
  "sessionRef (cleanupAudio s) = None"
  "processorRef (cleanupAudio s) = None"
  "inputContextRef (cleanupAudio s) = None"
  "audioContextRef (cleanupAudio s) = None"
  "mediaStreamsRef (cleanupAudio s) = []"
  "sourcesRef (cleanupAudio s) = []"
  by (simp_all add: cleanupAudio_def Let_def)

lemma foldl_stop_tracks_streams:
  "streams (foldl stop_tracks p is) =
     foldl (\<lambda>xs i. xs[i := map (\<lambda>t. t\<lparr>live := False\<rparr>) (xs ! i)]) (streams p) is"
  by (induction "is" arbitrary: p) (simp_all add: stop_tracks_def)

lemma foldl_stop_source_sources:
  "sources (foldl stop_source p is) =
     foldl (\<lambda>xs i. xs[i := (xs ! i)\<lparr>src_ended := True\<rparr>]) (sources p) is"
  by (induction "is" arbitrary: p) (simp_all add: stop_source_def)

lemma on_ref_components:
  "processors (on_ref disconnect r p) =
     (case r of None \<Rightarrow> processors p
      | Some i \<Rightarrow> (processors p)[i := (processors p ! i)\<lparr>proc_connected := False\<rparr>])"
  "contexts (on_ref close_context r p) =
     (case r of None \<Rightarrow> contexts p
      | Some i \<Rightarrow> (contexts p)[i := (contexts p ! i)\<lparr>ctx_closed := True\<rparr>])"
  "sessions (on_ref close_session r p) =
     (case r of None \<Rightarrow> sessions p
      | Some i \<Rightarrow> (sessions p)[i := (sessions p ! i)\<lparr>sess_closed := True\<rparr>])"
  by (simp_all add: on_ref_def disconnect_def close_context_def close_session_def split: option.splits)

lemma cleanupAudio_platform:
  "streams (platform (cleanupAudio s)) =
     foldl (\<lambda>xs i. xs[i := map (\<lambda>t. t\<lparr>live := False\<rparr>) (xs ! i)])
       (streams (platform s)) (mediaStreamsRef s)"
  "processors (platform (cleanupAudio s)) =
     (case processorRef s of None \<Rightarrow> processors (platform s)
      | Some i \<Rightarrow> (processors (platform s))
          [i := (processors (platform s) ! i)\<lparr>proc_connected := False\<rparr>])"
  "contexts (platform (cleanupAudio s)) =
     close_at (audioContextRef s) (close_at (inputContextRef s) (contexts (platform s)))"
  "sessions (platform (cleanupAudio s)) =
     (case sessionRef s of None \<Rightarrow> sessions (platform s)
      | Some i \<Rightarrow> (sessions (platform s))
          [i := (sessions (platform s) ! i)\<lparr>sess_closed := True\<rparr>])"
  "sources (platform (cleanupAudio s)) =
     foldl (\<lambda>xs i. xs[i := (xs ! i)\<lparr>src_ended := True\<rparr>]) (sources (platform s)) (sourcesRef s)"
  by (simp_all add: cleanupAudio_def Let_def foldl_stop_tracks_streams foldl_stop_source_sources
      on_ref_components close_at_def split: option.splits)

lemma cleanupAudio_lengths:
  "length (sessions (platform (cleanupAudio s))) = length (sessions (platform s))"
  "length (contexts (platform (cleanupAudio s))) = length (contexts (platform s))"
  "length (streams (platform (cleanupAudio s))) = length (streams (platform s))"
  "length (processors (platform (cleanupAudio s))) = length (processors (platform s))"
  "length (sources (platform (cleanupAudio s))) = length (sources (platform s))"
  by (simp_all add: cleanupAudio_def Let_def)

lemma cleanupAudio_idem: "cleanupAudio (cleanupAudio s) = cleanupAudio s"
  by (simp add: cleanupAudio_def Let_def on_ref_def)

text \<open>C5 (as amended). While a session is active, the action button does not start a
  session: a click is the teardown and nothing else, it creates no context, stream, processor
  or session, and it leaves the log as it is.\<close>

theorem active_click_stops:
  assumes "isActive s"
  shows "onClick env s = cleanupAudio s
     \<and> \<not> isActive (onClick env s)
     \<and> sessionRef (onClick env s) = None
     \<and> transcripts (onClick env s) = transcripts s
     \<and> length (sessions (platform (onClick env s))) = length (sessions (platform s))
     \<and> length (contexts (platform (onClick env s))) = length (contexts (platform s))
     \<and> length (streams (platform (onClick env s))) = length (streams (platform s))
     \<and> length (processors (platform (onClick env s))) = length (processors (platform s))"
  using assms by (simp add: onClick_def cleanupAudio_state cleanupAudio_lengths)

lemma live0_state:
  "isActive live0" "length (sessions (platform live0)) = 1" "sessionRef live0 = Some 0"
proof -
  have f: "failure (succeeds Cancelled) = None" by (simp add: succeeds_def)
  show "isActive live0" by (simp add: live0_def onopen_def)
  show "length (sessions (platform live0)) = 1"
    by (simp add: live0_def onopen_def connect_ok_platform [OF f] initial_def)
  show "sessionRef live0 = Some 0"
    by (simp add: live0_def onopen_def connect_ok_refs [OF f] initial_def)
qed

text \<open>The active session of the sample run.\<close>

theorem active_click_stops_witness:
  "isActive live0 \<and> sessionRef live0 = Some 0
   \<and> length (sessions (platform live0)) = 1
   \<and> onClick (succeeds Cancelled) live0 = cleanupAudio live0
   \<and> \<not> isActive (onClick (succeeds Cancelled) live0)
   \<and> sessionRef (onClick (succeeds Cancelled) live0) = None
   \<and> length (sessions (platform (onClick (succeeds Cancelled) live0))) =
       length (sessions (platform live0))"
  using active_click_stops [OF live0_state(1), of "succeeds Cancelled"] live0_state
  by blast

text \<open>C2, at the input where it fails. The constructor of the output context throws:
  the input context exists but was never stored in \<open>inputContextRef\<close>, so the teardown of
  the \<open>catch\<close> block, and any later teardown, leaves it open.\<close>

theorem input_context_leaks:
  "contexts (platform (connect output_context_fails (initial 0))) =
     [\<lparr> sampleRate = 16000, ctx_closed = False \<rparr>]
   \<and> inputContextRef (connect output_context_fails (initial 0)) = None
   \<and> audioContextRef (connect output_context_fails (initial 0)) = None
   \<and> error (connect output_context_fails (initial 0)) = Some ''NotSupportedError''
   \<and> outstanding (connect output_context_fails (initial 0))
   \<and> outstanding (cleanupAudio (connect output_context_fails (initial 0)))"
proof -
  define s1 where "s1 = (new_context 16000 ((initial 0)\<lparr>error := None\<rparr>))
      \<lparr> console := console (new_context 16000 ((initial 0)\<lparr>error := None\<rparr>)) @
                      [(Err, ''NotSupportedError'')],
        error := Some ''NotSupportedError'' \<rparr>"
  have c: "connect output_context_fails (initial 0) = cleanupAudio s1"
    by (simp add: connect_def thrown_def output_context_fails_def catch_connect_def s1_def Let_def)
  have r: "inputContextRef s1 = None" "audioContextRef s1 = None"
    "contexts (platform s1) = [\<lparr> sampleRate = 16000, ctx_closed = False \<rparr>]"
    "error s1 = Some ''NotSupportedError''"
    by (simp_all add: s1_def new_context_def initial_def)
  have k: "contexts (platform (cleanupAudio s1)) = [\<lparr> sampleRate = 16000, ctx_closed = False \<rparr>]"
    by (simp add: cleanupAudio_platform r close_at_def)
  show ?thesis
    unfolding c cleanupAudio_idem
    by (simp add: k cleanupAudio_state r outstanding_def)
qed

subsection \<open>The teardown and the resources it releases\<close>

lemma tracked_iff:
  "tracked s \<longleftrightarrow>
     (\<forall>i<length (streams (platform s)).
        i \<in> set (mediaStreamsRef s) \<or> (\<forall>t\<in>set (streams (platform s) ! i). \<not> live t))
   \<and> (\<forall>i<length (processors (platform s)).
        processorRef s = Some i \<or> \<not> proc_connected (processors (platform s) ! i))
   \<and> (\<forall>i<length (contexts (platform s)).
        inputContextRef s = Some i \<or> audioContextRef s = Some i \<or> ctx_closed (contexts (platform s) ! i))
   \<and> (\<forall>i<length (sessions (platform s)).
        sessionRef s = Some i \<or> sess_closed (sessions (platform s) ! i))
   \<and> (\<forall>i<length (sources (platform s)).
        i \<in> set (sourcesRef s) \<or> src_ended (sources (platform s) ! i))"
  by (auto simp: tracked_def Let_def list_all_iff)

lemma nth_update_any:
  "xs[j := x] ! i = (if j = i \<and> j < length xs then x else xs ! i)"
  by (cases "j < length xs") (auto simp: nth_list_update list_update_beyond)

lemma Bex_set_nth: "(\<exists>x\<in>set xs. P x) \<longleftrightarrow> (\<exists>i<length xs. P (xs ! i))"
  by (metis in_set_conv_nth)

lemma outstanding_iff:
  "outstanding s \<longleftrightarrow>
     (\<exists>i<length (streams (platform s)). \<exists>t\<in>set (streams (platform s) ! i). live t)
   \<or> (\<exists>i<length (processors (platform s)). proc_connected (processors (platform s) ! i))
   \<or> (\<exists>i<length (contexts (platform s)). \<not> ctx_closed (contexts (platform s) ! i))
   \<or> (\<exists>i<length (sessions (platform s)). \<not> sess_closed (sessions (platform s) ! i))
   \<or> (\<exists>i<length (sources (platform s)). \<not> src_ended (sources (platform s) ! i))"
  unfolding outstanding_def list_ex_iff
  by (simp only: Bex_set_nth [where P = "\<lambda>xs. \<exists>t\<in>set xs. live t"]
      Bex_set_nth [where P = proc_connected] Bex_set_nth [where P = "\<lambda>c. \<not> ctx_closed c"]
      Bex_set_nth [where P = "\<lambda>x. \<not> sess_closed x"] Bex_set_nth [where P = "\<lambda>x. \<not> src_ended x"])

lemma foldl_update_length [simp]:
  "length (foldl (\<lambda>xs i. xs[i := f (xs ! i)]) xs is) = length xs"
  by (induction "is" arbitrary: xs) simp_all

lemma foldl_update_nth:
  assumes "\<And>x. f (f x) = f x" and "i < length xs"
  shows "foldl (\<lambda>xs i. xs[i := f (xs ! i)]) xs is ! i = (if i \<in> set is then f (xs ! i) else xs ! i)"
  using assms(2)
proof (induction "is" arbitrary: xs)
  case Nil
  show ?case by simp
next
  case (Cons j js)
  let ?ys = "xs[j := f (xs ! j)]"
  have l: "i < length ?ys" using Cons.prems by simp
  have n: "?ys ! i = (if j = i then f (xs ! i) else xs ! i)"
    using Cons.prems by (simp add: nth_update_any)
  have "foldl (\<lambda>xs i. xs[i := f (xs ! i)]) xs (j # js) ! i =
      (if i \<in> set js then f (?ys ! i) else ?ys ! i)"
    using Cons.IH [OF l] by simp
  also have "\<dots> = (if i \<in> set (j # js) then f (xs ! i) else xs ! i)"
    unfolding n by (auto simp: assms(1))
  finally show ?case .
qed

lemma close_at_length [simp]: "length (close_at r cs) = length cs"
  by (simp add: close_at_def split: option.splits)

lemma close_at_nth:
  "i < length cs \<Longrightarrow>
     ctx_closed (close_at r cs ! i) = (r = Some i \<or> ctx_closed (cs ! i))"
  by (cases r) (auto simp: close_at_def nth_update_any)

lemma released_streams:
  assumes "\<And>i t. i < length xs \<Longrightarrow> t \<in> set (xs ! i) \<Longrightarrow> live t \<Longrightarrow> i \<in> set is"
    and "i < length xs"
    and "t \<in> set (foldl (\<lambda>xs i. xs[i := map (\<lambda>t. t\<lparr>live := False\<rparr>) (xs ! i)]) xs is ! i)"
  shows "\<not> live t"
proof
  assume l: "live t"
  have n: "foldl (\<lambda>xs i. xs[i := map (\<lambda>t. t\<lparr>live := False\<rparr>) (xs ! i)]) xs is ! i =
      (if i \<in> set is then map (\<lambda>t. t\<lparr>live := False\<rparr>) (xs ! i) else xs ! i)"
    by (rule foldl_update_nth) (simp_all add: assms(2) comp_def)
  show False
  proof (cases "i \<in> set is")
    case True
    with assms(3) n have "t \<in> set (map (\<lambda>t. t\<lparr>live := False\<rparr>) (xs ! i))" by simp
    with l show False by auto
  next
    case False
    with assms(3) n have "t \<in> set (xs ! i)" by simp
    from assms(1) [OF assms(2) this l] False show False by simp
  qed
qed

lemma released_sources:
  assumes "\<And>i. i < length xs \<Longrightarrow> \<not> src_ended (xs ! i) \<Longrightarrow> i \<in> set is"
    and "i < length xs"
  shows "src_ended (foldl (\<lambda>xs i. xs[i := (xs ! i)\<lparr>src_ended := True\<rparr>]) xs is ! i)"
proof -
  have n: "foldl (\<lambda>xs i. xs[i := (xs ! i)\<lparr>src_ended := True\<rparr>]) xs is ! i =
      (if i \<in> set is then (xs ! i)\<lparr>src_ended := True\<rparr> else xs ! i)"
    by (rule foldl_update_nth) (simp_all add: assms(2))
  show ?thesis
    using assms(1) [OF assms(2)] by (cases "i \<in> set is") (auto simp: n)
qed

text \<open>The teardown releases every object that the references hold.\<close>

lemma teardown_releases_tracked:
  assumes "tracked s"
  shows "\<not> outstanding (cleanupAudio s)"
proof -
  from assms have t:
    "\<And>i t. i < length (streams (platform s)) \<Longrightarrow> t \<in> set (streams (platform s) ! i) \<Longrightarrow>
        live t \<Longrightarrow> i \<in> set (mediaStreamsRef s)"
    "\<And>i. i < length (processors (platform s)) \<Longrightarrow>
        proc_connected (processors (platform s) ! i) \<Longrightarrow> processorRef s = Some i"
    "\<And>i. i < length (contexts (platform s)) \<Longrightarrow> \<not> ctx_closed (contexts (platform s) ! i) \<Longrightarrow>
        inputContextRef s = Some i \<or> audioContextRef s = Some i"
    "\<And>i. i < length (sessions (platform s)) \<Longrightarrow>
        \<not> sess_closed (sessions (platform s) ! i) \<Longrightarrow> sessionRef s = Some i"
    "\<And>i. i < length (sources (platform s)) \<Longrightarrow>
        \<not> src_ended (sources (platform s) ! i) \<Longrightarrow> i \<in> set (sourcesRef s)"
    unfolding tracked_iff by blast+
  have a: "\<not> live t"
    if "i < length (streams (platform (cleanupAudio s)))"
      and "t \<in> set (streams (platform (cleanupAudio s)) ! i)" for i t
    using released_streams [of "streams (platform s)" "mediaStreamsRef s" i t] t(1) that
    by (simp add: cleanupAudio_platform)
  have b: "\<not> proc_connected (processors (platform (cleanupAudio s)) ! i)"
    if "i < length (processors (platform (cleanupAudio s)))" for i
  proof (cases "processorRef s")
    case None
    with t(2) [of i] that show ?thesis by (auto simp: cleanupAudio_platform)
  next
    case (Some j)
    with t(2) [of i] that show ?thesis by (auto simp: cleanupAudio_platform nth_update_any)
  qed
  have c: "ctx_closed (contexts (platform (cleanupAudio s)) ! i)"
    if "i < length (contexts (platform (cleanupAudio s)))" for i
    using t(3) [of i] that by (auto simp: cleanupAudio_platform close_at_nth)
  have d: "sess_closed (sessions (platform (cleanupAudio s)) ! i)"
    if "i < length (sessions (platform (cleanupAudio s)))" for i
  proof (cases "sessionRef s")
    case None
    with t(4) [of i] that show ?thesis by (auto simp: cleanupAudio_platform)
  next
    case (Some j)
    with t(4) [of i] that show ?thesis by (auto simp: cleanupAudio_platform nth_update_any)
  qed
  have e: "src_ended (sources (platform (cleanupAudio s)) ! i)"
    if "i < length (sources (platform (cleanupAudio s)))" for i
    using released_sources [of "sources (platform s)" "sourcesRef s" i] t(5) that
    by (simp add: cleanupAudio_platform)
  show ?thesis
    unfolding outstanding_iff using a b c d e by blast
qed


lemma released_tracked: "\<not> outstanding s \<Longrightarrow> tracked s"
  unfolding outstanding_iff tracked_iff by blast

lemma tracked_cleanupAudio: "tracked s \<Longrightarrow> tracked (cleanupAudio s)"
  by (rule released_tracked) (rule teardown_releases_tracked)

lemma tracked_initial: "tracked (initial date)"
  by (simp add: tracked_def initial_def)

lemma tracked_cong:
  assumes "platform s' = platform s" "mediaStreamsRef s' = mediaStreamsRef s"
    "processorRef s' = processorRef s" "inputContextRef s' = inputContextRef s"
    "audioContextRef s' = audioContextRef s" "sessionRef s' = sessionRef s"
    "sourcesRef s' = sourcesRef s"
  shows "tracked s' = tracked s"
  by (simp add: tracked_def assms)

lemma outstanding_cong:
  assumes "platform s' = platform s"
  shows "outstanding s' = outstanding s"
  by (simp add: outstanding_def assms)

lemma tracked_onopen: "tracked s \<Longrightarrow> tracked (onopen c date s)"
  unfolding tracked_iff by (simp add: onopen_def nth_update_any)

lemma handle_audio_tracked:
  assumes "handle_audio c d now s = Inr s1" "tracked s"
  shows "tracked s1"
proof (cases "s1 = s")
  case True
  with assms(2) show ?thesis by simp
next
  case False
  with assms(1) obtain src where
    p: "platform s1 = (platform s)\<lparr>sources := sources (platform s) @ [src]\<rparr>"
    and r: "sourcesRef s1 = sourcesRef s @ [length (sources (platform s))]"
      "mediaStreamsRef s1 = mediaStreamsRef s" "processorRef s1 = processorRef s"
      "inputContextRef s1 = inputContextRef s" "audioContextRef s1 = audioContextRef s"
      "sessionRef s1 = sessionRef s"
    unfolding handle_audio_def
    by (auto simp: Let_def split: option.splits sum.splits if_splits)
  show ?thesis
    using assms(2) unfolding tracked_iff p r
    by (auto simp: nth_append less_Suc_eq)
qed

lemma onmessage_tracked:
  assumes "tracked s"
  shows "tracked (snd (onmessage c msg now date s))"
proof (cases "handle_audio c (audioData msg) now s")
  case (Inl e)
  then show ?thesis using assms by (simp add: onmessage_def)
next
  case (Inr s1)
  have t1: "tracked s1" using Inr assms by (rule handle_audio_tracked)
  have "tracked (handle_turn_complete (turnComplete msg) date
          (handle_input (inputTranscription msg) (handle_output (outputTranscription msg) date s1)))
        = tracked s1"
    by (rule tracked_cong)
      (simp_all add: handle_turn_complete_def finalize_input_def finalize_output_def
        handle_input_def handle_output_def Let_def split: option.splits)
  with t1 show ?thesis by (simp add: onmessage_def Inr)
qed

lemma deliver_tracked: "tracked s \<Longrightarrow> tracked (deliver c evs s)"
proof (induction evs arbitrary: s)
  case Nil
  then show ?case by simp
next
  case (Cons ev evs)
  obtain msg now date where ev: "ev = (msg, now, date)" by (cases ev)
  from Cons.prems have "tracked (snd (onmessage c msg now date s))" by (rule onmessage_tracked)
  from Cons.IH [OF this] show ?case by (simp add: ev)
qed

lemma tracked_onended: "tracked s \<Longrightarrow> tracked (onended i s)"
  unfolding tracked_iff by (auto simp: onended_def stop_source_def nth_update_any)

lemma released_iff:
  "\<not> outstanding s \<longleftrightarrow>
     (\<forall>i<length (streams (platform s)). \<forall>t\<in>set (streams (platform s) ! i). \<not> live t)
   \<and> (\<forall>i<length (processors (platform s)). \<not> proc_connected (processors (platform s) ! i))
   \<and> (\<forall>i<length (contexts (platform s)). ctx_closed (contexts (platform s) ! i))
   \<and> (\<forall>i<length (sessions (platform s)). sess_closed (sessions (platform s) ! i))
   \<and> (\<forall>i<length (sources (platform s)). src_ended (sources (platform s) ! i))"
  unfolding outstanding_iff by blast

lemma connect_ok_tracked:
  assumes "\<not> outstanding s" and "failure env = None"
  shows "tracked (connect env s)"
  using assms(1) unfolding released_iff tracked_iff
  by (auto simp: connect_ok_refs [OF assms(2)] connect_ok_platform [OF assms(2)]
      nth_append less_Suc_eq)

lemma catch_connect_released:
  assumes "tracked x"
  shows "\<not> outstanding (catch_connect m x)"
proof -
  have "tracked (x\<lparr> console := console x @ [(Err, m)],
      error := Some (if m = [] then ''Failed to initialize audio subsystem.'' else m) \<rparr>) = tracked x"
    by (rule tracked_cong) simp_all
  with assms show ?thesis
    unfolding catch_connect_def by (intro teardown_releases_tracked) simp
qed

lemma connect_failed_released:
  assumes "\<not> outstanding s" and "failure env = Some (step, m)" and "step \<noteq> AtOutputContext"
  shows "\<not> outstanding (connect env s)"
proof -
  note r = assms(1) [unfolded released_iff]
  have t: "tracked (s\<lparr>error := None\<rparr>)"
    using released_tracked [OF assms(1)] by (simp add: tracked_def)
  show ?thesis
  proof (cases step)
    case AtGenAI
    then show ?thesis
      using t by (simp add: connect_def thrown_def assms(2) catch_connect_released)
  next
    case AtInputContext
    then show ?thesis
      using t by (simp add: connect_def thrown_def assms(2) catch_connect_released)
  next
    case AtOutputContext
    with assms(3) show ?thesis by simp
  next
    case AtMicrophone
    show ?thesis
      apply (simp add: connect_def thrown_def assms(2) AtMicrophone Let_def)
      apply (rule catch_connect_released)
      using r apply (auto simp: tracked_iff new_context_def nth_append less_Suc_eq)
      done
  next
    case AtProcessor
    show ?thesis
      apply (simp add: connect_def thrown_def assms(2) AtProcessor Let_def)
      apply (intro conjI impI; rule catch_connect_released)
      using r apply (auto simp: tracked_iff new_context_def push_stream_def system_audio_def
          nth_append less_Suc_eq split: display_result.splits)
      done
  next
    case AtLiveConnect
    show ?thesis
      apply (simp add: connect_def thrown_def assms(2) AtLiveConnect Let_def)
      apply (intro conjI impI; rule catch_connect_released)
      using r apply (auto simp: tracked_iff new_context_def push_stream_def system_audio_def
          nth_append less_Suc_eq split: display_result.splits)
      done
  qed
qed


lemma connect_tracked:
  assumes "\<not> outstanding s" and "thrown env AtOutputContext = None"
  shows "tracked (connect env s)"
proof (cases "failure env")
  case None
  with assms(1) show ?thesis by (rule connect_ok_tracked)
next
  case (Some f)
  obtain step m where f: "f = (step, m)" by (cases f)
  have "step \<noteq> AtOutputContext"
    using assms(2) by (auto simp: thrown_def Some f)
  with assms(1) have "\<not> outstanding (connect env s)"
    using Some f by (intro connect_failed_released) simp_all
  then show ?thesis by (rule released_tracked)
qed

lemma exits_release_tracked:
  assumes "tracked s"
  shows "\<not> outstanding (cleanupAudio s)" "\<not> outstanding (onclose s)" "\<not> outstanding (onerror m s)"
proof -
  show "\<not> outstanding (cleanupAudio s)" using assms by (rule teardown_releases_tracked)
  have "tracked (s\<lparr>console := console s @ [(Log, ''EBURON Link Closed'')]\<rparr>) = tracked s"
    by (rule tracked_cong) simp_all
  with assms show "\<not> outstanding (onclose s)"
    unfolding onclose_def by (intro teardown_releases_tracked) simp
  have "tracked (s\<lparr> console := console s @ [(Err, ''EBURON Link Error'')],
      error := Some (''Connection interrupted. '' @ (if m = [] then ''Unknown error'' else m)) \<rparr>)
      = tracked s"
    by (rule tracked_cong) simp_all
  with assms show "\<not> outstanding (onerror m s)"
    unfolding onerror_def by (intro teardown_releases_tracked) simp
qed

text \<open>What holds of the teardown. From a state with nothing held, for every outcome of
  \<open>connect\<close> except a failure of the output context's constructor, and after \<open>onopen\<close> and
  any sequence of messages, each exit (the stop button's \<open>cleanupAudio\<close>, \<open>onclose\<close>,
  \<open>onerror\<close>) leaves nothing held; a failed \<open>connect\<close> has released what it acquired.\<close>

lemma session_teardown:
  assumes "\<not> outstanding s" and "thrown env AtOutputContext = None"
  shows "\<not> outstanding (cleanupAudio (deliver c evs (onopen c date (connect env s))))"
    and "\<not> outstanding (onclose (deliver c evs (onopen c date (connect env s))))"
    and "\<not> outstanding (onerror m (deliver c evs (onopen c date (connect env s))))"
    and "\<not> outstanding (cleanupAudio (connect env s))"
proof -
  have t: "tracked (connect env s)" using assms by (rule connect_tracked)
  then have "tracked (deliver c evs (onopen c date (connect env s)))"
    by (intro deliver_tracked tracked_onopen)
  then show "\<not> outstanding (cleanupAudio (deliver c evs (onopen c date (connect env s))))"
    and "\<not> outstanding (onclose (deliver c evs (onopen c date (connect env s))))"
    and "\<not> outstanding (onerror m (deliver c evs (onopen c date (connect env s))))"
    by (rule exits_release_tracked)+
  from t show "\<not> outstanding (cleanupAudio (connect env s))"
    by (rule teardown_releases_tracked)
qed

text \<open>After a second \<open>connect\<close> during connecting, the teardown closes the second
  session only: the first one stays open.\<close>

lemma second_connect_leaks:
  "outstanding (cleanupAudio (connect (succeeds Cancelled) (connect (succeeds Cancelled) (initial 0))))"
proof -
  have f: "failure (succeeds Cancelled) = None" by (simp add: succeeds_def)
  let ?s2 = "connect (succeeds Cancelled) (connect (succeeds Cancelled) (initial 0))"
  have r: "sessionRef ?s2 = Some 1"
    by (simp add: connect_ok_refs [OF f] connect_ok_platform [OF f] initial_def)
  have "\<exists>a b. sessions (platform ?s2) = [a, b] \<and> \<not> sess_closed a"
    by (simp add: connect_ok_platform [OF f] initial_def)
  then obtain a b where "sessions (platform ?s2) = [a, b]" "\<not> sess_closed a" by blast
  then have "list_ex (\<lambda>x. \<not> sess_closed x) (sessions (platform (cleanupAudio ?s2)))"
    by (simp add: cleanupAudio_platform r)
  then show ?thesis by (simp add: outstanding_def)
qed

subsection \<open>The language flag across sessions\<close>

lemma connect_ok_turn:
  assumes "failure env = None"
  shows "turnLanguageDetectedRef (connect env s) = turnLanguageDetectedRef s"
    and "translationEnabled (connect env s) = translationEnabled s"
    and "diarizationEnabled (connect env s) = diarizationEnabled s"
  using assms
  by (simp_all add: connect_defs Let_def split: display_result.splits)

lemma onopen_turn [simp]:
  "turnLanguageDetectedRef (onopen c date s) = turnLanguageDetectedRef s"
  by (simp add: onopen_def)

lemma onended_turn [simp]:
  "turnLanguageDetectedRef (onended i s) = turnLanguageDetectedRef s"
  "currentOutputTransRef (onended i s) = currentOutputTransRef s"
  by (simp_all add: onended_def)

lemma teardown_turn [simp]:
  "\<not> turnLanguageDetectedRef (cleanupAudio s)"
  "\<not> turnLanguageDetectedRef (onclose s)"
  "\<not> turnLanguageDetectedRef (onerror m s)"
  "\<not> turnLanguageDetectedRef (catch_connect m s)"
  "currentOutputTransRef (onclose s) = currentOutputTransRef s"
  "currentOutputTransRef (onerror m s) = currentOutputTransRef s"
  by (simp_all add: cleanupAudio_def onclose_def onerror_def catch_connect_def Let_def)

lemma cleanupAudio_modes [simp]:
  "translationEnabled (cleanupAudio s) = translationEnabled s"
  "diarizationEnabled (cleanupAudio s) = diarizationEnabled s"
  by (simp_all add: cleanupAudio_def Let_def)

lemma shown_append [simp]:
  "shown (ms @ ms') = shown ms @ shown ms'"
  "shown (m # ms) = (role m, msg_text m) # shown ms"
  "shown [] = []"
  by (simp_all add: shown_def)

text \<open>The flag stays in step with the accumulator across \<open>connect\<close>, \<open>onopen\<close> and the end
  of a source. Each exit (the stop button's \<open>cleanupAudio\<close>, \<open>onclose\<close>, \<open>onerror\<close>, the
  \<open>catch\<close> block of \<open>connect\<close>) clears the flag and keeps the accumulator, so it keeps the
  two in step exactly when the accumulator starts with no tag.\<close>

lemma flag_tracks_tag_connect:
  "failure env = None \<Longrightarrow> flag_tracks_tag (connect env s) = flag_tracks_tag s"
  by (simp add: flag_tracks_tag_def connect_ok_turn)

lemma flag_tracks_tag_onopen [simp]: "flag_tracks_tag (onopen c date s) = flag_tracks_tag s"
  by (simp add: flag_tracks_tag_def)

lemma flag_tracks_tag_onended [simp]: "flag_tracks_tag (onended i s) = flag_tracks_tag s"
  by (simp add: flag_tracks_tag_def)

lemma flag_tracks_tag_teardown:
  "flag_tracks_tag (cleanupAudio s) = (lang_match (currentOutputTransRef s) = None)"
  "flag_tracks_tag (onclose s) = (lang_match (currentOutputTransRef s) = None)"
  "flag_tracks_tag (onerror m s) = (lang_match (currentOutputTransRef s) = None)"
  "flag_tracks_tag (catch_connect m s) = (lang_match (currentOutputTransRef s) = None)"
  by (simp_all add: flag_tracks_tag_def)

text \<open>So the flag is in step with the accumulator throughout the first session, and
  throughout every session that follows a teardown between two turns.\<close>

lemma first_session_tracks_tag:
  assumes "failure env = None"
  shows "flag_tracks_tag (deliver c evs (onopen c date (connect env (initial d))))"
  by (intro flag_tracks_tag_deliver)
    (simp add: flag_tracks_tag_connect [OF assms] flag_tracks_tag_initial)

lemma next_session_tracks_tag:
  assumes "lang_match (currentOutputTransRef s) = None" and "failure env = None"
  shows "flag_tracks_tag (deliver c evs (onopen c date (connect env (cleanupAudio s))))"
  by (intro flag_tracks_tag_deliver)
    (simp add: flag_tracks_tag_connect [OF assms(2)] flag_tracks_tag_teardown assms(1))


end
